theory Spec2Isabelle
  imports Complex_Main "HOL-Library.DAList"
begin

section \<open>FXT telemetry: data model\<close>

text \<open>
  The development follows the single-file SDK (the enhanced revision with the pain-point
  analytics). The SDK keeps its state in the fields of one object \<open>FXT\<close>; here it is a
  record that every handler takes and returns. What the browser holds for the SDK
  (pending timers, registered listeners, requests in flight) is part of the same record,
  since the behaviour of \<open>stop\<close>, of the timers and of the retry depends on it.

  Conventions of the model:
  \<^item> times are real numbers of milliseconds (\<open>performance.now()\<close> has a fractional part);
    \<open>Math.round\<close> is \<^const>\<open>round\<close> (both are \<open>floor (x + 1/2)\<close>); the difference
    of two readings is the engine's, a double again, and comes from the host record;
  \<^item> a handler runs to completion on one reading of the clock: the readings that the
    source takes within one handler run are the same instant;
  \<^item> an event record is what its JSON text says, so \<open>JSON.parse (JSON.stringify e)\<close>
    is \<open>e\<close>;
  \<^item> a handler returns the exception it lets escape (if any) together with the state it
    leaves behind: the mutations made before a throw stay;
  \<^item> the numeric options (\<open>batchSize\<close>, \<open>maxMutationRecordsPerBatch\<close>, the delays) are
    counts, so natural numbers; \<open>splice(0, n)\<close> is then \<open>take n\<close> and \<open>drop n\<close>;
  \<^item> \<open>logDebug\<close> and \<open>console.warn\<close> change nothing of the state and are left out; the
    DOM is not modelled, a handler receives what the source derives from the event's
    target (\<open>cssPath\<close>, the value summary, the validity flags) and what the host answers.
\<close>

subsection \<open>Elements as the handlers read them\<close>

datatype value_kind = KEmpty | KNumeric | KAlpha | KAlphanum | KOther

record validity_flags =
  v_valid :: bool
  v_patternMismatch :: bool
  v_valueMissing :: bool
  v_typeMismatch :: bool
  v_tooShort :: bool
  v_tooLong :: bool

text \<open>
  The target of a DOM event, reduced to what the handlers derive from it:
  \<open>cssPath(el)\<close>, \<open>el.tagName\<close>, \<open>el.type || null\<close>, \<open>stepIndexForElement(el)\<close>,
  \<open>valueSummaryForElement(el)\<close> (length and coarse kind, or null) and \<open>el.validity\<close>.
\<close>

record element =
  el_path :: string
  el_tagName :: string
  el_type :: "string option"
  el_step :: "string option"
  el_valueSummary :: "(nat \<times> value_kind) option"
  el_validity :: "validity_flags option"

record descr =
  d_field :: string
  d_tag :: string
  d_fieldType :: "string option"
  d_step :: "string option"
  d_valueSummary :: "(nat \<times> value_kind) option"

definition describe :: "element \<Rightarrow> descr" where
  "describe el =
     \<lparr> d_field = el_path el, d_tag = el_tagName el, d_fieldType = el_type el,
       d_step = el_step el, d_valueSummary = el_valueSummary el \<rparr>"

subsection \<open>Field metric records and the analytics summary\<close>

record metrics =
  focusCount :: nat
  totalTimeSpent :: int
  editCount :: nat
  validationFailures :: nat
  lastValueLength :: nat
  backspaceCount :: nat
  pasteCount :: nat
  clearCount :: nat
  lastError :: "validity_flags option"

definition new_metrics :: metrics where
  "new_metrics =
     \<lparr> focusCount = 0, totalTimeSpent = 0, editCount = 0, validationFailures = 0,
       lastValueLength = 0, backspaceCount = 0, pasteCount = 0, clearCount = 0,
       lastError = None \<rparr>"

record summary =
  sm_field :: string
  sm_focusCount :: nat
  sm_totalTimeSpentMs :: int
  sm_editCount :: nat
  sm_validationFailures :: nat
  sm_backspaceCount :: nat
  sm_pasteCount :: nat
  sm_clearCount :: nat

record reasons =
  repeatedValidationFailures :: bool
  excessiveTimeSpent :: bool
  multipleReturns :: bool
  manyEdits :: bool
  multipleClears :: bool

record painPoint =
  pp_field :: string
  pp_reasons :: reasons
  pp_metrics :: summary

subsection \<open>Event records\<close>

datatype mutation_notice =
    Added string "string option"
  | Removed string "string option"
  | Attr string "string option"

datatype net_failure =
    HttpError nat "string option"
  | NetworkFail "string option"

text \<open>
  One constructor per \<open>type\<close> of event; the first argument is \<open>t\<close>, the rounded
  clock reading that \<open>makeEvent\<close> stamps, the others are the fields of the source's
  object literal in their order.
\<close>

datatype event =
    Focus int string descr nat nat nat
  | Blur int descr int int nat nat nat nat
  | Change int descr nat nat "validity_flags option" "nat option"
  | ValidationError int string string "string option" "string option" bool nat nat int bool
  | Paste int string string "string option"
  | StepTransition int "string option" "string option"
  | NetworkError int "string option" net_failure int
  | ScriptError int string string
  | DomMutation int "mutation_notice list"
  | FieldAnalytics int string "string option" nat "painPoint list" nat "summary list"
  | SessionStart int string
  | SessionEnd int string
  | Heartbeat int int

record batch =
  b_sessionId :: "string option"
  b_startedAt :: real
  b_events :: "event list"

subsection \<open>Configuration\<close>

record config =
  endpoint :: string
  formSelector :: string
  batchSize :: nat
  flushIntervalMs :: nat
  mutationBatchMs :: nat
  maxMutationRecordsPerBatch :: nat
  sessionTtlMs :: nat
  enableConsoleWrap :: bool
  debug :: bool

definition DEFAULTS :: config where
  "DEFAULTS =
     \<lparr> endpoint = ''/api/fxt/events'', formSelector = ''form'', batchSize = 25,
       flushIntervalMs = 4000, mutationBatchMs = 3000, maxMutationRecordsPerBatch = 8,
       sessionTtlMs = 1000 * 60 * 60, enableConsoleWrap = True, debug = False \<rparr>"

text \<open>The options object passed to \<open>init\<close>: each key is given or left out.\<close>

record options =
  o_endpoint :: "string option"
  o_formSelector :: "string option"
  o_batchSize :: "nat option"
  o_flushIntervalMs :: "nat option"
  o_mutationBatchMs :: "nat option"
  o_maxMutationRecordsPerBatch :: "nat option"
  o_sessionTtlMs :: "nat option"
  o_enableConsoleWrap :: "bool option"
  o_debug :: "bool option"

definition no_options :: options where
  "no_options =
     \<lparr> o_endpoint = None, o_formSelector = None, o_batchSize = None,
       o_flushIntervalMs = None, o_mutationBatchMs = None,
       o_maxMutationRecordsPerBatch = None, o_sessionTtlMs = None,
       o_enableConsoleWrap = None, o_debug = None \<rparr>"

definition or_default :: "'a option \<Rightarrow> 'a \<Rightarrow> 'a" where
  "or_default given dflt = (case given of None \<Rightarrow> dflt | Some v \<Rightarrow> v)"

text \<open>\<open>Object.assign({}, DEFAULTS, opts || {})\<close>.\<close>

definition assign :: "config \<Rightarrow> options \<Rightarrow> config" where
  "assign d opts =
     \<lparr> endpoint = or_default (o_endpoint opts) (endpoint d),
       formSelector = or_default (o_formSelector opts) (formSelector d),
       batchSize = or_default (o_batchSize opts) (batchSize d),
       flushIntervalMs = or_default (o_flushIntervalMs opts) (flushIntervalMs d),
       mutationBatchMs = or_default (o_mutationBatchMs opts) (mutationBatchMs d),
       maxMutationRecordsPerBatch =
         or_default (o_maxMutationRecordsPerBatch opts) (maxMutationRecordsPerBatch d),
       sessionTtlMs = or_default (o_sessionTtlMs opts) (sessionTtlMs d),
       enableConsoleWrap = or_default (o_enableConsoleWrap opts) (enableConsoleWrap d),
       debug = or_default (o_debug opts) (debug d) \<rparr>"

subsection \<open>The host environment\<close>

datatype beacon_result = BeaconQueued | BeaconRefused | BeaconThrew

datatype query_result = SelectorInvalid | NoMatch | FormFound

datatype exn = SyntaxError | ReferenceError

text \<open>
  What a handler run reads from the browser: the clocks, which capabilities exist, what
  \<open>navigator.sendBeacon\<close> answers for a body, what \<open>document.querySelector\<close> answers
  for a selector (it throws a \<open>SyntaxError\<close> on a string that is not a selector), the
  identifier \<open>makeSessionId\<close> draws and \<open>location.pathname\<close>.

  The engine computes with IEEE-754 doubles. A clock reading is the real number that a
  double stands for, and \<open>Math.round\<close> of a double is exact. The difference and the
  quotient of two doubles are rounded to a double again; that rounding is not modelled:
  \<open>double_minus\<close> and \<open>double_divide\<close> stand for the two operations of the engine
  and are taken as they come, so what is proved holds whatever they compute.
\<close>

record host =
  performance_now :: "real option"
  date_now :: real
  double_minus :: "real \<Rightarrow> real \<Rightarrow> real"
  double_divide :: "real \<Rightarrow> real \<Rightarrow> real"
  has_fetch :: bool
  sendBeacon :: "(batch \<Rightarrow> beacon_result) option"
  has_MutationObserver :: bool
  has_XMLHttpRequest :: bool
  querySelector :: "string \<Rightarrow> query_result"
  makeSessionId :: string
  pathname :: string

definition perfNow :: "host \<Rightarrow> real" where
  "perfNow h = (case performance_now h of Some t \<Rightarrow> t | None \<Rightarrow> date_now h)"

text \<open>The stamp \<open>t: Math.round(perfNow())\<close> of \<open>makeEvent\<close>.\<close>

definition stamp :: "host \<Rightarrow> int" where
  "stamp h = round (perfNow h)"

subsection \<open>The state\<close>

datatype timer_kind = FlushTick | MutationTick

text \<open>
  A request of \<open>flush\<close> in flight: its body, the number of \<open>wrapFetch\<close> layers around
  \<open>fetch\<close> when it was issued, and the clock reading those layers took.
\<close>

record request =
  rq_id :: nat
  rq_body :: batch
  rq_url :: string
  rq_wraps :: nat
  rq_start :: real

text \<open>
  The fields of \<open>FXT\<close> come first. \<open>fieldMetrics\<close> is an object used as a dictionary:
  its keys are distinct and \<open>Object.entries\<close> lists them in insertion order, which is an
  association list with distinct keys. \<open>observer\<close> is \<open>FXT._mo\<close>: absent, or the last
  observer created and whether it is connected.

  Then the browser's side: the pending \<open>setTimeout\<close> callbacks with their handles (a
  handle is a positive integer), the number of \<open>setInterval\<close> heartbeats, of listener
  sets and of wrappers installed, the observers still connected that \<open>FXT._mo\<close> no
  longer names, the requests in flight and the bodies \<open>sendBeacon\<close> took.
  \<open>outbound\<close> is a history variable: every Outbound Batch that \<open>flush\<close> built, in
  order.
\<close>

record state =
  config :: config
  sessionId :: "string option"
  events :: "event list"
  flushTimer :: "nat option"
  lastFlush :: real
  startedAt :: real
  mutationBuffer :: "mutation_notice list"
  mutationTimer :: "nat option"
  isInitialized :: bool
  isUnloading :: bool
  fieldMetrics :: "(string, metrics) alist"
  currentFocusedField :: "string option"
  fieldFocusStartTime :: "real option"
  observer :: "bool option"
  timers :: "(nat \<times> timer_kind) list"
  timer_seq :: nat
  heartbeats :: nat
  formListeners :: nat
  windowListeners :: nat
  unloadListeners :: nat
  visibilityListeners :: nat
  consoleWraps :: nat
  fetchWraps :: nat
  xhrWraps :: nat
  strayObservers :: nat
  inflight :: "request list"
  request_seq :: nat
  beacons :: "batch list"
  outbound :: "batch list"

text \<open>The state when the script has been loaded at clock reading \<open>t0\<close>.\<close>

definition loaded :: "real \<Rightarrow> state" where
  "loaded t0 =
     \<lparr> config = DEFAULTS, sessionId = None, events = [], flushTimer = None,
       lastFlush = 0, startedAt = t0, mutationBuffer = [], mutationTimer = None,
       isInitialized = False, isUnloading = False, fieldMetrics = DAList.empty,
       currentFocusedField = None, fieldFocusStartTime = None, observer = None,
       timers = [], timer_seq = 0, heartbeats = 0, formListeners = 0,
       windowListeners = 0, unloadListeners = 0, visibilityListeners = 0,
       consoleWraps = 0, fetchWraps = 0, xhrWraps = 0, strayObservers = 0,
       inflight = [], request_seq = 0, beacons = [], outbound = [] \<rparr>"

type_synonym outcome = "exn option \<times> state"

text \<open>Sequencing: the next statement runs unless the previous one threw.\<close>

definition and_then :: "outcome \<Rightarrow> (state \<Rightarrow> outcome) \<Rightarrow> outcome" where
  "and_then r f = (case r of (None, s) \<Rightarrow> f s | (Some e, s) \<Rightarrow> (Some e, s))"

text \<open>\<open>try { ... } catch (e) { /* ignore */ }\<close>.\<close>

definition ignoring :: "outcome \<Rightarrow> outcome" where
  "ignoring r = (None, snd r)"

section \<open>Event queue and sender\<close>

text \<open>
  \<open>fetch(endpoint, {...})\<close> of \<open>flush\<close>: a \<open>ReferenceError\<close> where the host has no
  \<open>fetch\<close>; otherwise the request is in flight and its promise settles later
  (\<open>settle\<close> below).
\<close>

definition send_fetch :: "host \<Rightarrow> batch \<Rightarrow> state \<Rightarrow> outcome" where
  "send_fetch h payload s =
     (if has_fetch h then
        (None, s\<lparr> request_seq := Suc (request_seq s),
                  inflight := inflight s @
                    [\<lparr> rq_id = Suc (request_seq s), rq_body = payload,
                       rq_url = endpoint (config s), rq_wraps = fetchWraps s,
                       rq_start = perfNow h \<rparr>] \<rparr>)
      else (Some ReferenceError, s))"

definition flush :: "host \<Rightarrow> state \<Rightarrow> outcome" where
  "flush h s =
     (if events s = [] then (None, s)
      else
        let payload = \<lparr> b_sessionId = sessionId s, b_startedAt = startedAt s,
                        b_events = take (batchSize (config s)) (events s) \<rparr>;
            s1 = s\<lparr> events := drop (batchSize (config s)) (events s),
                    outbound := outbound s @ [payload] \<rparr>
        in case sendBeacon h of
             Some answer \<Rightarrow>
               if isUnloading s1 then
                 (case answer payload of
                    BeaconQueued \<Rightarrow>
                      (None, s1\<lparr> lastFlush := date_now h, beacons := beacons s1 @ [payload] \<rparr>)
                  | BeaconRefused \<Rightarrow> send_fetch h payload s1
                  | BeaconThrew \<Rightarrow> send_fetch h payload s1)
               else send_fetch h payload s1
           | None \<Rightarrow> send_fetch h payload s1)"

definition enqueue :: "host \<Rightarrow> event \<Rightarrow> state \<Rightarrow> outcome" where
  "enqueue h evt s =
     (let s1 = s\<lparr> events := events s @ [evt] \<rparr>
      in if length (events s1) \<ge> batchSize (config s1) then flush h s1 else (None, s1))"

text \<open>The events that have passed through the queue: those sent, then those waiting.\<close>

definition passed :: "state \<Rightarrow> event list" where
  "passed s = concat (map b_events (outbound s)) @ events s"

text \<open>
  \<open>scheduleFlush\<close> and the browser's timer table. \<open>setTimeout\<close> hands out the next
  handle; \<open>clearTimeout\<close> removes the callback with that handle, if it is still
  pending, and does nothing for \<open>null\<close>.
\<close>

definition setTimeout :: "timer_kind \<Rightarrow> state \<Rightarrow> nat \<times> state" where
  "setTimeout k s =
     (Suc (timer_seq s),
      s\<lparr> timer_seq := Suc (timer_seq s), timers := timers s @ [(Suc (timer_seq s), k)] \<rparr>)"

definition clearTimeout :: "nat option \<Rightarrow> state \<Rightarrow> state" where
  "clearTimeout handle s =
     s\<lparr> timers := filter (\<lambda>(i, k). Some i \<noteq> handle) (timers s) \<rparr>"

definition scheduleFlush :: "state \<Rightarrow> state" where
  "scheduleFlush s =
     (if flushTimer s \<noteq> None then s
      else let (i, s1) = setTimeout FlushTick s in s1\<lparr> flushTimer := Some i \<rparr>)"

text \<open>The callback of the flush timer: \<open>_flushTimer = null; flush(); scheduleFlush()\<close>.\<close>

definition flush_tick :: "host \<Rightarrow> state \<Rightarrow> outcome" where
  "flush_tick h s =
     and_then (flush h (s\<lparr> flushTimer := None \<rparr>)) (\<lambda>s1. (None, scheduleFlush s1))"

section \<open>Field metrics\<close>

text \<open>
  \<open>initFieldMetrics\<close> returns the record of the field, creating it at the end of the
  dictionary when the field has none. The handlers mutate the record they got through
  the reference; \<open>put_metrics\<close> is that write: the record of an existing key is replaced
  where it stands.
\<close>

definition getFieldMetrics :: "string \<Rightarrow> state \<Rightarrow> metrics option" where
  "getFieldMetrics fieldPath s = DAList.lookup (fieldMetrics s) fieldPath"

definition initFieldMetrics :: "string \<Rightarrow> state \<Rightarrow> metrics \<times> state" where
  "initFieldMetrics fieldPath s =
     (case DAList.lookup (fieldMetrics s) fieldPath of
        None \<Rightarrow>
          (new_metrics,
           s\<lparr> fieldMetrics := DAList.update fieldPath new_metrics (fieldMetrics s) \<rparr>)
      | Some m \<Rightarrow> (m, s))"

definition put_metrics :: "string \<Rightarrow> metrics \<Rightarrow> state \<Rightarrow> state" where
  "put_metrics fieldPath m s =
     s\<lparr> fieldMetrics := DAList.update fieldPath m (fieldMetrics s) \<rparr>"

subsection \<open>Pain-point summary\<close>

definition summary_of :: "string \<Rightarrow> metrics \<Rightarrow> summary" where
  "summary_of fieldPath m =
     \<lparr> sm_field = fieldPath, sm_focusCount = focusCount m,
       sm_totalTimeSpentMs = totalTimeSpent m, sm_editCount = editCount m,
       sm_validationFailures = validationFailures m,
       sm_backspaceCount = backspaceCount m, sm_pasteCount = pasteCount m,
       sm_clearCount = clearCount m \<rparr>"

definition isPainPoint :: "metrics \<Rightarrow> bool" where
  "isPainPoint m =
     (validationFailures m > 2 \<or> totalTimeSpent m > 30000 \<or> focusCount m > 3 \<or>
      editCount m > 5 \<or> clearCount m > 1)"

definition reasons_of :: "metrics \<Rightarrow> reasons" where
  "reasons_of m =
     \<lparr> repeatedValidationFailures = validationFailures m > 2,
       excessiveTimeSpent = totalTimeSpent m > 30000,
       multipleReturns = focusCount m > 3,
       manyEdits = editCount m > 5,
       multipleClears = clearCount m > 1 \<rparr>"

definition painPoint_of :: "string \<Rightarrow> metrics \<Rightarrow> painPoint" where
  "painPoint_of fieldPath m =
     \<lparr> pp_field = fieldPath, pp_reasons = reasons_of m,
       pp_metrics = summary_of fieldPath m \<rparr>"

text \<open>
  The loop over \<open>Object.entries(FXT._fieldMetrics)\<close>: every entry is pushed to
  \<open>fieldSummaries\<close>, and to \<open>painPoints\<close> when the heuristic flags it.
\<close>

fun collect ::
  "(string \<times> metrics) list \<Rightarrow> painPoint list \<times> summary list \<Rightarrow> painPoint list \<times> summary list"
where
  "collect [] acc = acc"
| "collect ((fieldPath, m) # rest) (painPoints, fieldSummaries) =
     collect rest
       (if isPainPoint m then painPoints @ [painPoint_of fieldPath m] else painPoints,
        fieldSummaries @ [summary_of fieldPath m])"

definition painPoints_of :: "state \<Rightarrow> painPoint list" where
  "painPoints_of s = fst (collect (DAList.impl_of (fieldMetrics s)) ([], []))"

definition fieldSummaries_of :: "state \<Rightarrow> summary list" where
  "fieldSummaries_of s = snd (collect (DAList.impl_of (fieldMetrics s)) ([], []))"

definition field_analytics :: "host \<Rightarrow> string \<Rightarrow> state \<Rightarrow> event" where
  "field_analytics h reason s =
     FieldAnalytics (stamp h) reason (currentFocusedField s)
       (length (fieldSummaries_of s)) (painPoints_of s) (length (painPoints_of s))
       (fieldSummaries_of s)"

definition sendFieldMetricsSummary :: "host \<Rightarrow> string \<Rightarrow> state \<Rightarrow> outcome" where
  "sendFieldMetricsSummary h reason s = enqueue h (field_analytics h reason s) s"

section \<open>Form listeners\<close>

definition onFocus :: "host \<Rightarrow> element \<Rightarrow> state \<Rightarrow> outcome" where
  "onFocus h el s =
     (let fieldPath = el_path el;
          (m0, s1) = initFieldMetrics fieldPath s;
          s2 = s1\<lparr> currentFocusedField := Some fieldPath,
                   fieldFocusStartTime := Some (perfNow h) \<rparr>;
          m = m0\<lparr> focusCount := focusCount m0 + 1 \<rparr>;
          s3 = put_metrics fieldPath m s2
      in enqueue h
           (Focus (stamp h) (formSelector (config s3)) (describe el) (focusCount m)
              (validationFailures m) (editCount m))
           s3)"

text \<open>
  \<open>onBlur\<close> tests \<open>FXT._fieldFocusStartTime\<close> for truth: a start reading of \<open>0\<close>
  counts as no reading.
\<close>

definition truthy_time :: "real option \<Rightarrow> bool" where
  "truthy_time start = (case start of None \<Rightarrow> False | Some t \<Rightarrow> t \<noteq> 0)"

definition onBlur :: "host \<Rightarrow> element \<Rightarrow> state \<Rightarrow> outcome" where
  "onBlur h el s =
     (let fieldPath = el_path el;
          found = getFieldMetrics fieldPath s;
          tracked = (currentFocusedField s = Some fieldPath \<and>
                     truthy_time (fieldFocusStartTime s));
          timeSpent = (if tracked
                       then round (double_minus h (perfNow h) (or_default (fieldFocusStartTime s) 0))
                       else 0);
          s1 = (if tracked
                then (case found of
                        None \<Rightarrow> s
                      | Some m0 \<Rightarrow>
                          put_metrics fieldPath
                            (m0\<lparr> totalTimeSpent := totalTimeSpent m0 + timeSpent \<rparr>) s)
                else s);
          s2 = s1\<lparr> currentFocusedField := None, fieldFocusStartTime := None \<rparr>;
          m = or_default (getFieldMetrics fieldPath s2) new_metrics
      in enqueue h
           (Blur (stamp h) (describe el) timeSpent (totalTimeSpent m) (editCount m)
              (validationFailures m) (backspaceCount m) (pasteCount m))
           s2)"

definition onChange :: "host \<Rightarrow> element \<Rightarrow> state \<Rightarrow> outcome" where
  "onChange h el s =
     (let fieldPath = el_path el;
          (m0, s1) = initFieldMetrics fieldPath s;
          valueSummary = el_valueSummary el;
          m1 = m0\<lparr> editCount := editCount m0 + 1 \<rparr>;
          m2 = (if lastValueLength m1 > 0 \<and>
                   (case valueSummary of None \<Rightarrow> False | Some (len, k) \<Rightarrow> len = 0)
                then m1\<lparr> clearCount := clearCount m1 + 1 \<rparr> else m1);
          m3 = m2\<lparr> lastValueLength :=
                     (case valueSummary of None \<Rightarrow> 0 | Some (len, k) \<Rightarrow> len) \<rparr>;
          failed = (case el_validity el of None \<Rightarrow> False | Some v \<Rightarrow> \<not> v_valid v);
          m4 = (if failed
                then m3\<lparr> validationFailures := validationFailures m3 + 1,
                         lastError := el_validity el \<rparr>
                else m3);
          s2 = put_metrics fieldPath m4 s1
      in enqueue h
           (Change (stamp h) (describe el) (editCount m3) (clearCount m3) (el_validity el)
              (if failed then Some (validationFailures m4) else None))
           s2)"

definition onInvalid :: "host \<Rightarrow> element \<Rightarrow> state \<Rightarrow> outcome" where
  "onInvalid h el s =
     (let fieldPath = el_path el;
          (m0, s1) = initFieldMetrics fieldPath s;
          m = m0\<lparr> validationFailures := validationFailures m0 + 1 \<rparr>;
          s2 = put_metrics fieldPath m s1
      in enqueue h
           (ValidationError (stamp h) fieldPath (el_tagName el) (el_type el) (el_step el)
              (el_validity el \<noteq> None) (validationFailures m) (editCount m)
              (totalTimeSpent m) (validationFailures m > 1))
           s2)"

definition toLowerCase :: "string \<Rightarrow> string" where
  "toLowerCase str =
     map (\<lambda>c. if 65 \<le> (of_char c :: nat) \<and> (of_char c :: nat) \<le> 90
               then char_of ((of_char c :: nat) + 32) else c) str"

definition onKeyDown :: "element \<Rightarrow> string \<Rightarrow> state \<Rightarrow> state" where
  "onKeyDown el pressed s =
     (if el_tagName el = [] then s
      else if toLowerCase (el_tagName el) \<noteq> ''input'' \<and>
              toLowerCase (el_tagName el) \<noteq> ''textarea'' then s
      else
        let (m0, s1) = initFieldMetrics (el_path el) s
        in if pressed = ''Backspace'' \<or> pressed = ''Delete''
           then put_metrics (el_path el) (m0\<lparr> backspaceCount := backspaceCount m0 + 1 \<rparr>) s1
           else s1)"

definition onPaste :: "host \<Rightarrow> element \<Rightarrow> state \<Rightarrow> outcome" where
  "onPaste h el s =
     (if el_tagName el = [] then (None, s)
      else
        let (m0, s1) = initFieldMetrics (el_path el) s;
            s2 = put_metrics (el_path el) (m0\<lparr> pasteCount := pasteCount m0 + 1 \<rparr>) s1
        in enqueue h (Paste (stamp h) (el_path el) (el_tagName el) (el_type el)) s2)"

section \<open>Structural changes\<close>

text \<open>
  A mutation record as the observer's callback reads it: a \<open>childList\<close> record with
  its added and removed nodes (node type, \<open>cssPath\<close>, tag name if any), or an
  \<open>attributes\<close> record with the path of its target and the attribute's name. Only
  element nodes (type 1) are buffered.
\<close>

record node =
  n_nodeType :: nat
  n_path :: string
  n_tagName :: "string option"

datatype mutation_record =
    ChildList "node list" "node list"
  | Attributes string "string option"

definition notices_of :: "mutation_record \<Rightarrow> mutation_notice list" where
  "notices_of m =
     (case m of
        ChildList addedNodes removedNodes \<Rightarrow>
          map (\<lambda>n. Added (n_path n) (map_option toLowerCase (n_tagName n)))
            (filter (\<lambda>n. n_nodeType n = 1) addedNodes) @
          map (\<lambda>n. Removed (n_path n) (map_option toLowerCase (n_tagName n)))
            (filter (\<lambda>n. n_nodeType n = 1) removedNodes)
      | Attributes target attributeName \<Rightarrow> [Attr target attributeName])"

text \<open>
  The observer's callback: buffer the notices of every record, then arm the coalescing
  timer unless a handle is stored.
\<close>

definition onMutations :: "mutation_record list \<Rightarrow> state \<Rightarrow> state" where
  "onMutations mutations s =
     (let s1 = s\<lparr> mutationBuffer := mutationBuffer s @ concat (map notices_of mutations) \<rparr>
      in if mutationTimer s1 \<noteq> None then s1
         else let (i, s2) = setTimeout MutationTick s1 in s2\<lparr> mutationTimer := Some i \<rparr>)"

text \<open>The callback of the coalescing timer.\<close>

definition mutation_tick :: "host \<Rightarrow> state \<Rightarrow> outcome" where
  "mutation_tick h s =
     (let changes = take (maxMutationRecordsPerBatch (config s)) (mutationBuffer s);
          s1 = s\<lparr> mutationBuffer :=
                    drop (maxMutationRecordsPerBatch (config s)) (mutationBuffer s) \<rparr>
      in and_then (enqueue h (DomMutation (stamp h) changes) s1)
           (\<lambda>s2. (None, s2\<lparr> mutationTimer := None \<rparr>)))"

text \<open>
  A pending timer fires: the browser drops it from its table and runs its callback. A
  handle that is not pending fires nothing.
\<close>

definition fire :: "host \<Rightarrow> nat \<Rightarrow> state \<Rightarrow> outcome" where
  "fire h i s =
     (case map_of (timers s) i of
        None \<Rightarrow> (None, s)
      | Some k \<Rightarrow>
          let s1 = s\<lparr> timers := filter (\<lambda>(j, k'). j \<noteq> i) (timers s) \<rparr>
          in (case k of FlushTick \<Rightarrow> flush_tick h s1 | MutationTick \<Rightarrow> mutation_tick h s1))"

definition observeMutations :: "host \<Rightarrow> state \<Rightarrow> state" where
  "observeMutations h s =
     (if \<not> has_MutationObserver h then s
      else s\<lparr> strayObservers :=
                 strayObservers s + (if observer s = Some True then 1 else 0),
               observer := Some True \<rparr>)"

section \<open>Public API and lifecycle\<close>

text \<open>
  \<open>FXT.init\<close>. The selector goes to \<open>document.querySelector\<close> outside any \<open>try\<close>.
  \<open>init_rest\<close> is the part after the form has been looked up.
\<close>

definition init_rest :: "host \<Rightarrow> state \<Rightarrow> outcome" where
  "init_rest h s =
     (let s1 = (if enableConsoleWrap (config s)
                then s\<lparr> consoleWraps := consoleWraps s + 1 \<rparr> else s);
          s2 = s1\<lparr> windowListeners := windowListeners s1 + 1 \<rparr>;
          s3 = (if has_fetch h then s2\<lparr> fetchWraps := fetchWraps s2 + 1 \<rparr> else s2);
          s4 = (if has_XMLHttpRequest h then s3\<lparr> xhrWraps := xhrWraps s3 + 1 \<rparr> else s3)
      in and_then (enqueue h (SessionStart (stamp h) (pathname h)) s4)
           (\<lambda>s5. let s6 = scheduleFlush s5
                 in (None, s6\<lparr> unloadListeners := unloadListeners s6 + 1,
                               visibilityListeners := visibilityListeners s6 + 1,
                               heartbeats := heartbeats s6 + 1 \<rparr>)))"

definition init :: "host \<Rightarrow> options \<Rightarrow> state \<Rightarrow> outcome" where
  "init h opts s =
     (if isInitialized s then (None, s)
      else
        let s1 = s\<lparr> config := assign DEFAULTS opts, sessionId := Some (makeSessionId h),
                    isUnloading := False, isInitialized := True \<rparr>
        in case querySelector h (formSelector (config s1)) of
             SelectorInvalid \<Rightarrow> (Some SyntaxError, s1)
           | NoMatch \<Rightarrow> init_rest h s1
           | FormFound \<Rightarrow>
               init_rest h
                 (observeMutations h (s1\<lparr> formListeners := formListeners s1 + 1 \<rparr>)))"

text \<open>\<open>FXT.stop\<close>: its whole body stands in \<open>try { ... } catch (e) { /* ignore */ }\<close>.\<close>

definition stop_body :: "host \<Rightarrow> state \<Rightarrow> outcome" where
  "stop_body h s =
     (let s1 = s\<lparr> observer := map_option (\<lambda>connected. False) (observer s) \<rparr>;
          s2 = s1\<lparr> isInitialized := False \<rparr>;
          s3 = clearTimeout (flushTimer s2) s2
      in and_then (sendFieldMetricsSummary h ''stop'' s3)
           (\<lambda>s4. and_then (enqueue h (SessionEnd (stamp h) ''stop'') s4) (flush h)))"

definition stop :: "host \<Rightarrow> state \<Rightarrow> outcome" where
  "stop h s = ignoring (stop_body h s)"

text \<open>The \<open>beforeunload\<close> and \<open>visibilitychange\<close> listeners and the heartbeat.\<close>

definition final_flush :: "host \<Rightarrow> string \<Rightarrow> state \<Rightarrow> outcome" where
  "final_flush h reason s =
     and_then (sendFieldMetricsSummary h reason s)
       (\<lambda>s1. and_then (enqueue h (SessionEnd (stamp h) reason) s1) (flush h))"

definition onBeforeUnload :: "host \<Rightarrow> state \<Rightarrow> outcome" where
  "onBeforeUnload h s = ignoring (final_flush h ''unload'' (s\<lparr> isUnloading := True \<rparr>))"

definition onVisibilityChange :: "host \<Rightarrow> bool \<Rightarrow> state \<Rightarrow> outcome" where
  "onVisibilityChange h hidden s =
     (if hidden then final_flush h ''hidden'' (s\<lparr> isUnloading := True \<rparr>) else (None, s))"

definition onHeartbeat :: "host \<Rightarrow> state \<Rightarrow> outcome" where
  "onHeartbeat h s =
     and_then
       (enqueue h (Heartbeat (stamp h) (round (double_divide h (double_minus h (perfNow h) (startedAt s)) 1000))) s)
       (\<lambda>s1. if DAList.impl_of (fieldMetrics s1) \<noteq> []
             then sendFieldMetricsSummary h ''periodic'' s1 else (None, s1))"

section \<open>Settling a request of flush\<close>

text \<open>
  The promise of a request settles with a response (any status) or is rejected (the
  request could not complete). It passes the \<open>wrapFetch\<close> layers that were around
  \<open>fetch\<close> when \<open>flush\<close> called it, innermost first, and then the two handlers that
  \<open>flush\<close> attached. A layer is \<open>.then(A).catch(B)\<close>: \<open>A\<close> records an error event for a
  response that is not ok and passes the response on; \<open>B\<close> records a \<open>networkFail\<close>
  event and throws the error again; an exception in \<open>A\<close> is a rejection that \<open>B\<close>
  sees.
\<close>

record response =
  r_ok :: bool
  r_status :: nat
  r_statusText :: string

datatype settled = Fulfilled response | Rejected string

definition wrapper_catch :: "host \<Rightarrow> request \<Rightarrow> string \<Rightarrow> state \<Rightarrow> settled \<times> state" where
  "wrapper_catch h rq err s =
     (case enqueue h
             (NetworkError (stamp h) (Some (rq_url rq)) (NetworkFail (Some (take 300 err)))
                (round (double_minus h (perfNow h) (rq_start rq)))) s of
        (None, s1) \<Rightarrow> (Rejected err, s1)
      | (Some e, s1) \<Rightarrow> (Rejected ''ReferenceError'', s1))"

definition wrapper :: "host \<Rightarrow> request \<Rightarrow> settled \<Rightarrow> state \<Rightarrow> settled \<times> state" where
  "wrapper h rq incoming s =
     (case incoming of
        Fulfilled res \<Rightarrow>
          if r_ok res then (Fulfilled res, s)
          else (case enqueue h
                       (NetworkError (stamp h) (Some (rq_url rq))
                          (HttpError (r_status res) (Some (r_statusText res)))
                          (round (double_minus h (perfNow h) (rq_start rq)))) s of
                  (None, s1) \<Rightarrow> (Fulfilled res, s1)
                | (Some e, s1) \<Rightarrow> wrapper_catch h rq ''ReferenceError'' s1)
      | Rejected err \<Rightarrow> wrapper_catch h rq err s)"

fun wrappers :: "host \<Rightarrow> request \<Rightarrow> nat \<Rightarrow> settled \<Rightarrow> state \<Rightarrow> settled \<times> state" where
  "wrappers h rq 0 incoming s = (incoming, s)"
| "wrappers h rq (Suc n) incoming s =
     (let (passed_on, s1) = wrapper h rq incoming s in wrappers h rq n passed_on s1)"

text \<open>The handlers of \<open>flush\<close>: \<open>.then(res => ...)\<close> and \<open>.catch(err => ...)\<close>.\<close>

definition flush_then :: "host \<Rightarrow> response \<Rightarrow> state \<Rightarrow> state" where
  "flush_then h res s = s\<lparr> lastFlush := date_now h \<rparr>"

definition flush_catch :: "request \<Rightarrow> state \<Rightarrow> state" where
  "flush_catch rq s = s\<lparr> events := b_events (rq_body rq) @ events s \<rparr>"

definition settle :: "host \<Rightarrow> request \<Rightarrow> settled \<Rightarrow> state \<Rightarrow> state" where
  "settle h rq result s =
     (let s0 = s\<lparr> inflight := filter (\<lambda>r. rq_id r \<noteq> rq_id rq) (inflight s) \<rparr>
      in case wrappers h rq (rq_wraps rq) result s0 of
           (Fulfilled res, s1) \<Rightarrow> flush_then h res s1
         | (Rejected err, s1) \<Rightarrow> flush_catch rq s1)"

section \<open>Runs\<close>

text \<open>
  Everything that can happen to the SDK after the script has loaded: a call of the
  public API, a notice from the form, a record from an outside producer (console,
  window, XHR and click wrappers, which only enqueue), a callback of the observer, a
  timer that fires, the heartbeat, a lifecycle notice, or a request that settles.
\<close>

datatype action =
    Init options
  | Stop
  | FocusIn element
  | FocusOut element
  | ValueChange element
  | Invalid element
  | KeyDown element string
  | PasteIn element
  | Produce event
  | Mutations "mutation_record list"
  | TimerFires nat
  | HeartbeatFires
  | BeforeUnload
  | VisibilityChange bool
  | Settles nat settled

definition step :: "host \<Rightarrow> action \<Rightarrow> state \<Rightarrow> outcome" where
  "step h a s =
     (case a of
        Init opts \<Rightarrow> init h opts s
      | Stop \<Rightarrow> stop h s
      | FocusIn el \<Rightarrow> onFocus h el s
      | FocusOut el \<Rightarrow> onBlur h el s
      | ValueChange el \<Rightarrow> onChange h el s
      | Invalid el \<Rightarrow> onInvalid h el s
      | KeyDown el pressed \<Rightarrow> (None, onKeyDown el pressed s)
      | PasteIn el \<Rightarrow> onPaste h el s
      | Produce evt \<Rightarrow> enqueue h evt s
      | Mutations ms \<Rightarrow> (None, onMutations ms s)
      | TimerFires i \<Rightarrow> fire h i s
      | HeartbeatFires \<Rightarrow> onHeartbeat h s
      | BeforeUnload \<Rightarrow> onBeforeUnload h s
      | VisibilityChange hidden \<Rightarrow> onVisibilityChange h hidden s
      | Settles i result \<Rightarrow>
          (case find (\<lambda>r. rq_id r = i) (inflight s) of
             None \<Rightarrow> (None, s)
           | Some rq \<Rightarrow> (None, settle h rq result s)))"

text \<open>A run: the state after each notice is the state the next one finds.\<close>

fun run :: "(host \<times> action) list \<Rightarrow> state \<Rightarrow> state" where
  "run [] s = s"
| "run ((h, a) # rest) s = run rest (snd (step h a s))"

section \<open>Auxiliary notions and sample inputs\<close>

text \<open>
  \<open>queue_only s s'\<close>: \<open>s'\<close> differs from \<open>s\<close> at most in the queue and in what the
  sender touches (the buffer, the requests in flight, the beacons, the history and
  \<open>_lastFlush\<close>).
\<close>

definition queue_only :: "state \<Rightarrow> state \<Rightarrow> bool" where
  "queue_only s s' =
     (s' = s\<lparr> events := events s', lastFlush := lastFlush s', inflight := inflight s',
              request_seq := request_seq s', beacons := beacons s',
              outbound := outbound s' \<rparr>)"

text \<open>
  A browser that has every capability, and a few records and states to run on. The
  clock readings of the samples are whole numbers of milliseconds, on which the
  difference of two doubles is the exact one.
\<close>

definition browser :: "real \<Rightarrow> host" where
  "browser now =
     \<lparr> performance_now = Some now, date_now = 1700000000000 + now,
       double_minus = (\<lambda>a b. a - b), double_divide = (\<lambda>a b. a / b), has_fetch = True,
       sendBeacon = Some (\<lambda>body. BeaconQueued), has_MutationObserver = True,
       has_XMLHttpRequest = True,
       querySelector = (\<lambda>sel. if sel = ''form'' then FormFound
                             else if sel = ''['' then SelectorInvalid else NoMatch),
       makeSessionId = ''4f0c7a52-9d1e-4b6a-8c33-5e2f7a9b1d04'', pathname = ''/checkout'' \<rparr>"

definition small_batches :: state where
  "small_batches =
     (loaded 0)\<lparr> config := DEFAULTS\<lparr> batchSize := 2 \<rparr>,
                 events := [SessionStart 12 ''/checkout''] \<rparr>"

definition email_field :: "(nat \<times> value_kind) option \<Rightarrow> element" where
  "email_field sample =
     \<lparr> el_path = ''form#signup > input:nth-child(2)'', el_tagName = ''INPUT'',
       el_type = Some ''email'', el_step = None, el_valueSummary = sample,
       el_validity = None \<rparr>"

text \<open>Focus and blur notices on one field, in alternation: each pair with its two hosts.\<close>

fun focus_blur_pairs :: "element \<Rightarrow> (host \<times> host) list \<Rightarrow> state \<Rightarrow> state" where
  "focus_blur_pairs el [] s = s"
| "focus_blur_pairs el ((hf, hb) # rest) s =
     focus_blur_pairs el rest (snd (onBlur hb el (snd (onFocus hf el s))))"

definition bad_selector :: options where
  "bad_selector = no_options\<lparr> o_formSelector := Some ''['' \<rparr>"

text \<open>Several records enqueued one after the other.\<close>

fun enqueue_all :: "host \<Rightarrow> event list \<Rightarrow> state \<Rightarrow> state" where
  "enqueue_all h [] s = s"
| "enqueue_all h (e # es) s = enqueue_all h es (snd (enqueue h e s))"

text \<open>The records that the \<open>wrapFetch\<close> layers make of a request's outcome.\<close>

definition networkFail_record :: "host \<Rightarrow> request \<Rightarrow> string \<Rightarrow> event" where
  "networkFail_record h rq err =
     NetworkError (stamp h) (Some (rq_url rq)) (NetworkFail (Some (take 300 err)))
       (round (double_minus h (perfNow h) (rq_start rq)))"

definition httpError_record :: "host \<Rightarrow> request \<Rightarrow> response \<Rightarrow> event" where
  "httpError_record h rq res =
     NetworkError (stamp h) (Some (rq_url rq))
       (HttpError (r_status res) (Some (r_statusText res)))
       (round (double_minus h (perfNow h) (rq_start rq)))"

text \<open>
  The request that \<open>flush\<close> hands to \<open>fetch\<close> in state \<open>s\<close> on host \<open>h\<close>: the next
  request number, the first \<open>batchSize\<close> records of the buffer under the session's
  identifier, the configured endpoint, the \<open>wrapFetch\<close> layers then around \<open>fetch\<close>,
  and the clock reading the innermost layer takes. \<open>beacon_takes h s\<close>: the page is
  unloading, the host has \<open>navigator.sendBeacon\<close>, and it accepts that batch.
\<close>

definition issued :: "host \<Rightarrow> state \<Rightarrow> request" where
  "issued h s =
     \<lparr> rq_id = Suc (request_seq s),
       rq_body = \<lparr> b_sessionId = sessionId s, b_startedAt = startedAt s,
                   b_events = take (batchSize (config s)) (events s) \<rparr>,
       rq_url = endpoint (config s), rq_wraps = fetchWraps s, rq_start = perfNow h \<rparr>"

definition beacon_takes :: "host \<Rightarrow> state \<Rightarrow> bool" where
  "beacon_takes h s =
     (case sendBeacon h of
        None \<Rightarrow> False
      | Some answer \<Rightarrow>
          isUnloading s \<and>
          answer \<lparr> b_sessionId = sessionId s, b_startedAt = startedAt s,
                   b_events = take (batchSize (config s)) (events s) \<rparr> = BeaconQueued)"

text \<open>
  The state right after a first \<open>init\<close> with the defaults at clock reading 5, and a
  session that goes on from there: the flush timer fires at 4005 and sends the session
  start, and a script error is recorded at 4500 while the request is in flight.
\<close>

definition started :: state where
  "started =
     \<lparr> config = DEFAULTS, sessionId = Some ''4f0c7a52-9d1e-4b6a-8c33-5e2f7a9b1d04'',
       events = [SessionStart 5 ''/checkout''], flushTimer = Some 1,
       lastFlush = 0, startedAt = 0, mutationBuffer = [], mutationTimer = None,
       isInitialized = True, isUnloading = False, fieldMetrics = DAList.empty,
       currentFocusedField = None, fieldFocusStartTime = None, observer = Some True,
       timers = [(1, FlushTick)], timer_seq = 1, heartbeats = 1, formListeners = 1,
       windowListeners = 1, unloadListeners = 1, visibilityListeners = 1,
       consoleWraps = 1, fetchWraps = 1, xhrWraps = 1, strayObservers = 0,
       inflight = [], request_seq = 0, beacons = [], outbound = [] \<rparr>"

definition sent_once :: "(host \<times> action) list" where
  "sent_once =
     [(browser 5, Init no_options), (browser 4005, TimerFires 1),
      (browser 4500, Produce (ScriptError 4500 ''x is not defined'' ''checkout.js''))]"

text \<open>
  The invariant of the timer table: handles are distinct and have been handed out, a
  pending flush callback is the one whose handle \<open>_flushTimer\<close> holds, a pending
  coalescing callback is the one whose handle \<open>_mutationTimer\<close> holds, and the two
  stored handles have been handed out and are not the same handle.
\<close>

definition table_ok ::
  "(nat \<times> timer_kind) list \<Rightarrow> nat \<Rightarrow> nat option \<Rightarrow> nat option \<Rightarrow> bool" where
  "table_ok ts seq fl mu =
     (distinct (map fst ts) \<and>
      list_all (\<lambda>(i, k). i \<le> seq \<and>
                  (case k of FlushTick \<Rightarrow> fl = Some i | MutationTick \<Rightarrow> mu = Some i)) ts \<and>
      list_all (\<lambda>i. i \<le> seq) (case fl of None \<Rightarrow> [] | Some i \<Rightarrow> [i]) \<and>
      list_all (\<lambda>i. i \<le> seq) (case mu of None \<Rightarrow> [] | Some i \<Rightarrow> [i]) \<and>
      (fl = None \<or> fl \<noteq> mu))"

definition timers_ok :: "state \<Rightarrow> bool" where
  "timers_ok s = table_ok (timers s) (timer_seq s) (flushTimer s) (mutationTimer s)"

definition same_timers :: "state \<Rightarrow> state \<Rightarrow> bool" where
  "same_timers s s' =
     (timers s' = timers s \<and> timer_seq s' = timer_seq s \<and> flushTimer s' = flushTimer s \<and>
      mutationTimer s' = mutationTimer s)"

definition pending :: "timer_kind \<Rightarrow> state \<Rightarrow> nat list" where
  "pending k s = map fst (filter (\<lambda>(i, k'). k' = k) (timers s))"

text \<open>
  A short session: \<open>init\<close> with the defaults, one attribute change inside the form a
  moment later, then \<open>stop\<close>.
\<close>

definition stopped_early :: "(host \<times> action) list" where
  "stopped_early =
     [(browser 5, Init no_options),
      (browser 800, Mutations [Attributes ''form#signup > input:nth-child(2)'' (Some ''class'')]),
      (browser 1200, Stop)]"

text \<open>A text node that replaces another, as when a message's text is rewritten.\<close>

definition text_node :: node where
  "text_node = \<lparr> n_nodeType = 3, n_path = [], n_tagName = None \<rparr>"

definition backlog :: state where
  "backlog =
     (loaded 0)\<lparr> config := DEFAULTS\<lparr> maxMutationRecordsPerBatch := 2 \<rparr>,
                 mutationBuffer := [Attr ''form#signup'' (Some ''class''),
                                    Added ''form#signup > p'' (Some ''p''),
                                    Removed ''form#signup > p'' (Some ''p'')],
                 mutationTimer := Some 1, timers := [(1, MutationTick)], timer_seq := 1 \<rparr>"

text \<open>A session that is stopped and started again on the same page.\<close>

definition restarted :: "(host \<times> action) list" where
  "restarted =
     [(browser 5, Init no_options), (browser 1200, Stop), (browser 2000, Init no_options)]"

text \<open>A store with one field that has been edited six times and nothing else.\<close>

definition six_edits :: state where
  "six_edits =
     (loaded 0)\<lparr> fieldMetrics :=
       DAList.update ''form#signup > input:nth-child(2)'' (new_metrics\<lparr> editCount := 6 \<rparr>)
         DAList.empty \<rparr>"

section \<open>Properties of the event queue\<close>

lemma flush_empty: "events s = [] \<Longrightarrow> flush h s = (None, s)"
  by (simp add: flush_def)

lemma queue_only_refl: "queue_only s s"
  by (simp add: queue_only_def)

lemma queue_only_trans: "queue_only s s1 \<Longrightarrow> queue_only s1 s2 \<Longrightarrow> queue_only s s2"
  unfolding queue_only_def
proof -
  assume a: "s1 = s\<lparr> events := events s1, lastFlush := lastFlush s1, inflight := inflight s1,
              request_seq := request_seq s1, beacons := beacons s1,
              outbound := outbound s1 \<rparr>"
   and b: "s2 = s1\<lparr> events := events s2, lastFlush := lastFlush s2, inflight := inflight s2,
              request_seq := request_seq s2, beacons := beacons s2,
              outbound := outbound s2 \<rparr>"
  show "s2 = s\<lparr> events := events s2, lastFlush := lastFlush s2, inflight := inflight s2,
              request_seq := request_seq s2, beacons := beacons s2,
              outbound := outbound s2 \<rparr>"
    by (subst b, subst a) simp
qed

lemma send_fetch_queue_only: "queue_only s (snd (send_fetch h p s))"
  by (simp add: send_fetch_def queue_only_def)

lemma flush_queue_only: "queue_only s (snd (flush h s))"
proof (cases "events s = []")
  case True
  then show ?thesis by (simp add: flush_def queue_only_refl)
next
  case False
  have 1: "queue_only s (s\<lparr> events := ev, outbound := ob \<rparr>)" for ev ob
    by (simp add: queue_only_def)
  have 2: "queue_only s1 (s1\<lparr> lastFlush := lf, beacons := bc \<rparr>)" for s1 lf bc
    by (simp add: queue_only_def)
  show ?thesis
    using False
    by (auto simp add: flush_def Let_def split: option.splits beacon_result.splits
        intro: queue_only_trans[OF 1 send_fetch_queue_only] queue_only_trans[OF 1 2])
qed

lemma enqueue_queue_only: "queue_only s (snd (enqueue h e s))"
proof -
  have 1: "queue_only s (s\<lparr> events := ev \<rparr>)" for ev
    by (simp add: queue_only_def)
  show ?thesis
    by (auto simp add: enqueue_def Let_def intro: 1 queue_only_trans[OF 1 flush_queue_only])
qed

lemma send_fetch_events: "events (snd (send_fetch h p s)) = events s"
  by (simp add: send_fetch_def)

lemma send_fetch_outbound: "outbound (snd (send_fetch h p s)) = outbound s"
  by (simp add: send_fetch_def)

lemma flush_events: "events (snd (flush h s)) = drop (batchSize (config s)) (events s)"
  by (simp add: flush_def Let_def send_fetch_events split: option.splits beacon_result.splits)

lemma flush_outbound:
  "events s \<noteq> [] \<Longrightarrow>
   outbound (snd (flush h s)) =
     outbound s @ [\<lparr> b_sessionId = sessionId s, b_startedAt = startedAt s,
                     b_events = take (batchSize (config s)) (events s) \<rparr>]"
  by (simp add: flush_def Let_def send_fetch_outbound split: option.splits beacon_result.splits)

lemma flush_passed: "passed (snd (flush h s)) = passed s"
proof (cases "events s = []")
  case True
  then show ?thesis by (simp add: flush_def)
next
  case False
  then show ?thesis by (simp add: passed_def flush_events flush_outbound)
qed

lemma enqueue_passed: "passed (snd (enqueue h e s)) = passed s @ [e]"
  by (simp add: enqueue_def Let_def flush_passed) (simp add: passed_def)

lemma enqueue_below:
  "length (events s) + 1 < batchSize (config s) \<Longrightarrow>
   enqueue h e s = (None, s\<lparr> events := events s @ [e] \<rparr>)"
  by (simp add: enqueue_def Let_def)

lemma enqueue_flushes:
  "batchSize (config s) \<le> length (events s) + 1 \<Longrightarrow>
   enqueue h e s = flush h (s\<lparr> events := events s @ [e] \<rparr>)"
  by (simp add: enqueue_def Let_def)

lemma enqueue_outbound_length:
  "length (outbound (snd (enqueue h e s))) =
     length (outbound s) + (if batchSize (config s) \<le> length (events s) + 1 then 1 else 0)"
  by (simp add: enqueue_def Let_def flush_outbound)

text \<open>
  Claim C1. \<open>enqueue\<close> appends the record at the back: the sequence of records that
  have passed through the queue grows by exactly that record, and below the threshold
  the buffer is the old buffer followed by it. An \<open>enqueue\<close> builds one Outbound Batch
  when the buffer reaches \<open>batchSize\<close> (25 by default) and none otherwise; the record
  that brings the length to \<open>batchSize\<close> sends the whole buffer in that one batch.
  \<open>flush\<close> does nothing on an empty buffer; otherwise it builds exactly one batch,
  made of the first \<open>batchSize\<close> records (at most \<open>batchSize\<close> of them, oldest first),
  and the batch followed by what stays in the buffer is the buffer as it was.
\<close>

theorem enqueue_flush_contract:
  "batchSize DEFAULTS = 25 \<and>
   passed (snd (enqueue h e s)) = passed s @ [e] \<and>
   (length (events s) + 1 < batchSize (config s) \<longrightarrow>
      enqueue h e s = (None, s\<lparr> events := events s @ [e] \<rparr>)) \<and>
   length (outbound (snd (enqueue h e s))) =
     length (outbound s) + (if batchSize (config s) \<le> length (events s) + 1 then 1 else 0) \<and>
   (length (events s) + 1 = batchSize (config s) \<longrightarrow>
      events (snd (enqueue h e s)) = [] \<and>
      outbound (snd (enqueue h e s)) =
        outbound s @ [\<lparr> b_sessionId = sessionId s, b_startedAt = startedAt s,
                        b_events = events s @ [e] \<rparr>]) \<and>
   (events s = [] \<longrightarrow> flush h s = (None, s)) \<and>
   (events s \<noteq> [] \<longrightarrow>
      outbound (snd (flush h s)) =
        outbound s @ [\<lparr> b_sessionId = sessionId s, b_startedAt = startedAt s,
                        b_events = take (batchSize (config s)) (events s) \<rparr>] \<and>
      events (snd (flush h s)) = drop (batchSize (config s)) (events s) \<and>
      length (b_events (last (outbound (snd (flush h s))))) \<le> batchSize (config s) \<and>
      b_events (last (outbound (snd (flush h s)))) @ events (snd (flush h s)) = events s)"
proof -
  have d: "batchSize DEFAULTS = 25"
    by (simp add: DEFAULTS_def)
  have full: "events (snd (enqueue h e s)) = [] \<and>
      outbound (snd (enqueue h e s)) =
        outbound s @ [\<lparr> b_sessionId = sessionId s, b_startedAt = startedAt s,
                        b_events = events s @ [e] \<rparr>]"
    if "length (events s) + 1 = batchSize (config s)"
    using that by (simp add: enqueue_flushes flush_events flush_outbound)
  have fl: "outbound (snd (flush h s)) =
        outbound s @ [\<lparr> b_sessionId = sessionId s, b_startedAt = startedAt s,
                        b_events = take (batchSize (config s)) (events s) \<rparr>] \<and>
      events (snd (flush h s)) = drop (batchSize (config s)) (events s) \<and>
      length (b_events (last (outbound (snd (flush h s))))) \<le> batchSize (config s) \<and>
      b_events (last (outbound (snd (flush h s)))) @ events (snd (flush h s)) = events s"
    if "events s \<noteq> []"
    using that by (simp add: flush_events flush_outbound)
  show ?thesis
    using d full fl enqueue_passed[of h e s] enqueue_below[of s h e]
      enqueue_outbound_length[of h e s] flush_empty[of s h]
    by blast
qed

theorem enqueue_flush_contract_witness:
  "enqueue (browser 40) (Heartbeat 40 0) (loaded 0) =
     (None, (loaded 0)\<lparr> events := [Heartbeat 40 0] \<rparr>) \<and>
   events (snd (enqueue (browser 40) (Heartbeat 40 0) small_batches)) = [] \<and>
   outbound (snd (enqueue (browser 40) (Heartbeat 40 0) small_batches)) =
     [\<lparr> b_sessionId = None, b_startedAt = 0,
        b_events = [SessionStart 12 ''/checkout'', Heartbeat 40 0] \<rparr>] \<and>
   flush (browser 40) (loaded 0) = (None, loaded 0) \<and>
   outbound (snd (flush (browser 40) small_batches)) =
     [\<lparr> b_sessionId = None, b_startedAt = 0, b_events = [SessionStart 12 ''/checkout''] \<rparr>] \<and>
   events (snd (flush (browser 40) small_batches)) = []"
  using enqueue_flush_contract[of "browser 40" "Heartbeat 40 0" "loaded 0"]
    enqueue_flush_contract[of "browser 40" "Heartbeat 40 0" small_batches]
  by (simp add: loaded_def small_batches_def DEFAULTS_def)

section \<open>Properties of the pain-point summary\<close>

lemma collect_map_filter:
  "collect xs (pps, acc) =
     (pps @ map (\<lambda>(f, m). painPoint_of f m) (filter (\<lambda>(f, m). isPainPoint m) xs),
      acc @ map (\<lambda>(f, m). summary_of f m) xs)"
  by (induction xs arbitrary: pps acc) auto

lemma painPoints_of_eq:
  "painPoints_of s =
     map (\<lambda>(f, m). painPoint_of f m)
       (filter (\<lambda>(f, m). isPainPoint m) (DAList.impl_of (fieldMetrics s)))"
  by (simp add: painPoints_of_def collect_map_filter)

lemma fieldSummaries_of_eq:
  "fieldSummaries_of s = map (\<lambda>(f, m). summary_of f m) (DAList.impl_of (fieldMetrics s))"
  by (simp add: fieldSummaries_of_def collect_map_filter)

lemma entries_of_field:
  "distinct (map fst xs) \<Longrightarrow>
   filter (\<lambda>pp. pp_field pp = f)
     (map (\<lambda>(f, m). painPoint_of f m) (filter (\<lambda>(f, m). isPainPoint m) xs)) =
   (case map_of xs f of
      None \<Rightarrow> []
    | Some m \<Rightarrow> if isPainPoint m then [painPoint_of f m] else [])"
proof (induction xs)
  case Nil
  then show ?case by simp
next
  case (Cons x xs)
  obtain g m where x: "x = (g, m)" by (cases x)
  from Cons.prems x have notin: "map_of xs g = None"
    by (simp add: map_of_eq_None_iff)
  from Cons x notin show ?case
    by (auto simp add: painPoint_of_def split: option.splits)
qed

text \<open>
  Claim C3. For a field \<open>f\<close>, the entries of \<open>painPoints\<close> that name \<open>f\<close> are: none when
  the store has no record for \<open>f\<close> or none of the five thresholds is exceeded, and
  otherwise exactly one entry, whose \<open>reasons\<close> are the five comparisons themselves. The
  list is the one that the \<open>field-analytics\<close> record enqueued by
  \<open>sendFieldMetricsSummary\<close> carries.
\<close>

theorem painPoints_match_thresholds:
  "filter (\<lambda>pp. pp_field pp = f) (painPoints_of s) =
     (case DAList.lookup (fieldMetrics s) f of
        None \<Rightarrow> []
      | Some m \<Rightarrow>
          if validationFailures m > 2 \<or> totalTimeSpent m > 30000 \<or> focusCount m > 3 \<or>
             editCount m > 5 \<or> clearCount m > 1
          then [\<lparr> pp_field = f,
                  pp_reasons =
                    \<lparr> repeatedValidationFailures = validationFailures m > 2,
                      excessiveTimeSpent = totalTimeSpent m > 30000,
                      multipleReturns = focusCount m > 3,
                      manyEdits = editCount m > 5,
                      multipleClears = clearCount m > 1 \<rparr>,
                  pp_metrics = summary_of f m \<rparr>]
          else []) \<and>
   passed (snd (sendFieldMetricsSummary h reason s)) =
     passed s @
       [FieldAnalytics (stamp h) reason (currentFocusedField s)
          (length (DAList.impl_of (fieldMetrics s))) (painPoints_of s)
          (length (painPoints_of s)) (fieldSummaries_of s)]"
proof -
  have "filter (\<lambda>pp. pp_field pp = f) (painPoints_of s) =
     (case DAList.lookup (fieldMetrics s) f of
        None \<Rightarrow> []
      | Some m \<Rightarrow> if isPainPoint m then [painPoint_of f m] else [])"
    by (simp add: painPoints_of_eq entries_of_field DAList.lookup.rep_eq)
  moreover have "length (fieldSummaries_of s) = length (DAList.impl_of (fieldMetrics s))"
    by (simp add: fieldSummaries_of_eq)
  ultimately show ?thesis
    by (auto simp add: isPainPoint_def painPoint_of_def reasons_of_def
        sendFieldMetricsSummary_def field_analytics_def enqueue_passed
        split: option.splits)
qed

text \<open>The scenario of six edits and nothing else: the field is flagged for \<open>manyEdits\<close> alone.\<close>

lemma six_edits_flagged:
  "painPoints_of six_edits =
     [\<lparr> pp_field = ''form#signup > input:nth-child(2)'',
        pp_reasons = \<lparr> repeatedValidationFailures = False, excessiveTimeSpent = False,
                       multipleReturns = False, manyEdits = True, multipleClears = False \<rparr>,
        pp_metrics = \<lparr> sm_field = ''form#signup > input:nth-child(2)'', sm_focusCount = 0,
                       sm_totalTimeSpentMs = 0, sm_editCount = 6, sm_validationFailures = 0,
                       sm_backspaceCount = 0, sm_pasteCount = 0, sm_clearCount = 0 \<rparr> \<rparr>]"
  by (simp add: painPoints_of_def six_edits_def DAList.update.rep_eq DAList.empty.rep_eq
        isPainPoint_def painPoint_of_def reasons_of_def summary_of_def new_metrics_def)

section \<open>Properties of the field metrics\<close>

lemma queue_only_metrics:
  assumes "queue_only s s'"
  shows "fieldMetrics s' = fieldMetrics s"
    and "currentFocusedField s' = currentFocusedField s"
    and "fieldFocusStartTime s' = fieldFocusStartTime s"
proof -
  note eq = assms[unfolded queue_only_def]
  show "fieldMetrics s' = fieldMetrics s"
    using arg_cong[OF eq, of fieldMetrics] by simp
  show "currentFocusedField s' = currentFocusedField s"
    using arg_cong[OF eq, of currentFocusedField] by simp
  show "fieldFocusStartTime s' = fieldFocusStartTime s"
    using arg_cong[OF eq, of fieldFocusStartTime] by simp
qed

lemmas enqueue_metrics = queue_only_metrics[OF enqueue_queue_only]

lemma get_put_metrics: "getFieldMetrics f (put_metrics f m s) = Some m"
  by (simp add: getFieldMetrics_def put_metrics_def)

lemma get_put_metrics_other:
  "g \<noteq> f \<Longrightarrow> getFieldMetrics g (put_metrics f m s) = getFieldMetrics g s"
  by (simp add: getFieldMetrics_def put_metrics_def)

lemma initFieldMetrics_fst:
  "fst (initFieldMetrics f s) = or_default (getFieldMetrics f s) new_metrics"
  by (simp add: initFieldMetrics_def getFieldMetrics_def or_default_def split: option.splits)

lemma put_after_init:
  "put_metrics f m (snd (initFieldMetrics f s)) = put_metrics f m s"
  by (simp add: initFieldMetrics_def put_metrics_def split: option.splits)

lemma get_after_enqueue:
  "getFieldMetrics f (snd (enqueue h e s)) = getFieldMetrics f s"
  by (simp add: getFieldMetrics_def enqueue_metrics)

lemma onChange_metrics:
  "getFieldMetrics (el_path el) (snd (onChange h el s)) =
     (let m0 = or_default (getFieldMetrics (el_path el) s) new_metrics;
          m1 = m0\<lparr> editCount := editCount m0 + 1 \<rparr>;
          m2 = (if lastValueLength m1 > 0 \<and> map_option fst (el_valueSummary el) = Some 0
                then m1\<lparr> clearCount := clearCount m1 + 1 \<rparr> else m1);
          m3 = m2\<lparr> lastValueLength :=
                     (case el_valueSummary el of None \<Rightarrow> 0 | Some (len, k) \<Rightarrow> len) \<rparr>;
          failed = (case el_validity el of None \<Rightarrow> False | Some v \<Rightarrow> \<not> v_valid v)
      in Some (if failed
               then m3\<lparr> validationFailures := validationFailures m3 + 1,
                        lastError := el_validity el \<rparr>
               else m3))"
proof -
  obtain m0 s1 where i: "initFieldMetrics (el_path el) s = (m0, s1)"
    by (cases "initFieldMetrics (el_path el) s")
  have m0: "m0 = or_default (getFieldMetrics (el_path el) s) new_metrics"
    using initFieldMetrics_fst[of "el_path el" s] i by simp
  have c: "(case el_valueSummary el of None \<Rightarrow> False | Some (len, k) \<Rightarrow> len = 0) =
           (map_option fst (el_valueSummary el) = Some 0)"
    by (simp split: option.splits prod.splits)
  show ?thesis
    unfolding onChange_def
    by (simp add: i Let_def get_after_enqueue get_put_metrics m0[symmetric] c)
qed


lemma onChange_clearCount:
  "map_option clearCount (getFieldMetrics (el_path el) (snd (onChange h el s))) =
     Some (clearCount (or_default (getFieldMetrics (el_path el) s) new_metrics) +
           (if 0 < lastValueLength (or_default (getFieldMetrics (el_path el) s) new_metrics) \<and>
               map_option fst (el_valueSummary el) = Some 0
            then 1 else 0))"
  by (simp add: onChange_metrics Let_def)

lemma onChange_lastValueLength:
  "map_option lastValueLength (getFieldMetrics (el_path el) (snd (onChange h el s))) =
     Some (case el_valueSummary el of None \<Rightarrow> 0 | Some (len, k) \<Rightarrow> len)"
  by (simp add: onChange_metrics Let_def)

text \<open>
  Claim C8. \<open>m0\<close> is the field's record as \<open>onChange\<close> finds it (a fresh record when the
  field has none). A notice whose value summary has length zero adds one to
  \<open>clearCount\<close> when the last recorded length was not zero, and leaves it when that
  length was zero; the notice records its own length as the last one (zero for a missing
  summary), so a second zero-length notice right after leaves \<open>clearCount\<close> as the first
  one left it.
\<close>

theorem clear_detection:
  "(el_valueSummary el = Some (0, k) \<and>
      0 < lastValueLength (or_default (getFieldMetrics (el_path el) s) new_metrics) \<longrightarrow>
    map_option clearCount (getFieldMetrics (el_path el) (snd (onChange h el s))) =
      Some (clearCount (or_default (getFieldMetrics (el_path el) s) new_metrics) + 1)) \<and>
   (el_valueSummary el = Some (0, k) \<and>
      lastValueLength (or_default (getFieldMetrics (el_path el) s) new_metrics) = 0 \<longrightarrow>
    map_option clearCount (getFieldMetrics (el_path el) (snd (onChange h el s))) =
      Some (clearCount (or_default (getFieldMetrics (el_path el) s) new_metrics))) \<and>
   map_option lastValueLength (getFieldMetrics (el_path el) (snd (onChange h el s))) =
     Some (case el_valueSummary el of None \<Rightarrow> 0 | Some (len, k) \<Rightarrow> len) \<and>
   (el_valueSummary el = Some (0, k) \<longrightarrow>
    map_option clearCount
      (getFieldMetrics (el_path el) (snd (onChange h' el (snd (onChange h el s))))) =
    map_option clearCount (getFieldMetrics (el_path el) (snd (onChange h el s))))"
proof -
  let ?m0 = "or_default (getFieldMetrics (el_path el) s) new_metrics"
  let ?s1 = "snd (onChange h el s)"
  have a: "map_option clearCount (getFieldMetrics (el_path el) ?s1) = Some (clearCount ?m0 + 1)"
    if "el_valueSummary el = Some (0, k)" "0 < lastValueLength ?m0"
    using that by (simp add: onChange_clearCount)
  have b: "map_option clearCount (getFieldMetrics (el_path el) ?s1) = Some (clearCount ?m0)"
    if "el_valueSummary el = Some (0, k)" "lastValueLength ?m0 = 0"
    using that by (simp add: onChange_clearCount)
  have c: "map_option clearCount (getFieldMetrics (el_path el) (snd (onChange h' el ?s1))) =
           map_option clearCount (getFieldMetrics (el_path el) ?s1)"
    if z: "el_valueSummary el = Some (0, k)"
  proof -
    from onChange_lastValueLength[of el h s] z
    obtain m1 where m1: "getFieldMetrics (el_path el) ?s1 = Some m1" "lastValueLength m1 = 0"
      by auto
    show ?thesis
      by (simp add: onChange_clearCount[of el h' ?s1] m1 or_default_def)
  qed
  from a b c onChange_lastValueLength[of el h s] show ?thesis
    by blast
qed

theorem clear_detection_witness:
  "map_option clearCount
     (getFieldMetrics ''form#signup > input:nth-child(2)''
        (snd (onChange (browser 500) (email_field (Some (5, KAlpha))) (loaded 0)))) = Some 0 \<and>
   map_option clearCount
     (getFieldMetrics ''form#signup > input:nth-child(2)''
        (snd (onChange (browser 900) (email_field (Some (0, KEmpty)))
           (snd (onChange (browser 500) (email_field (Some (5, KAlpha))) (loaded 0)))))) =
     Some 1 \<and>
   map_option clearCount
     (getFieldMetrics ''form#signup > input:nth-child(2)''
        (snd (onChange (browser 950) (email_field (Some (0, KEmpty)))
           (snd (onChange (browser 900) (email_field (Some (0, KEmpty)))
              (snd (onChange (browser 500) (email_field (Some (5, KAlpha))) (loaded 0)))))))) =
     Some 1"
proof -
  define typed where "typed = snd (onChange (browser 500) (email_field (Some (5, KAlpha))) (loaded 0))"
  define cleared where "cleared = snd (onChange (browser 900) (email_field (Some (0, KEmpty))) typed)"
  have p: "el_path (email_field v) = ''form#signup > input:nth-child(2)''" for v
    by (simp add: email_field_def)
  have vs: "el_valueSummary (email_field v) = v" for v
    by (simp add: email_field_def)
  have e: "getFieldMetrics ''form#signup > input:nth-child(2)'' (loaded 0) = None"
    by (simp add: getFieldMetrics_def loaded_def)
  have t: "getFieldMetrics ''form#signup > input:nth-child(2)'' typed =
     Some (new_metrics\<lparr> editCount := 1, lastValueLength := 5 \<rparr>)"
    using onChange_metrics[of "email_field (Some (5, KAlpha))" "browser 500" "loaded 0"]
    by (simp add: typed_def p vs e or_default_def Let_def new_metrics_def email_field_def)
  have c: "getFieldMetrics ''form#signup > input:nth-child(2)'' cleared =
     Some (new_metrics\<lparr> editCount := 2, lastValueLength := 0, clearCount := 1 \<rparr>)"
    using onChange_metrics[of "email_field (Some (0, KEmpty))" "browser 900" typed]
    by (simp add: cleared_def p vs t or_default_def Let_def new_metrics_def email_field_def)
  show ?thesis
    using clear_detection[of "email_field (Some (0, KEmpty))" KEmpty typed "browser 900" "browser 950"]
      clear_detection[of "email_field (Some (0, KEmpty))" KEmpty cleared "browser 950" "browser 950"]
    unfolding typed_def[symmetric] cleared_def[symmetric]
    by (simp add: p vs t c or_default_def new_metrics_def)
qed

subsection \<open>Focus and blur\<close>

lemma onFocus_metrics:
  "getFieldMetrics (el_path el) (snd (onFocus h el s)) =
     Some ((or_default (getFieldMetrics (el_path el) s) new_metrics)
             \<lparr> focusCount := focusCount (or_default (getFieldMetrics (el_path el) s) new_metrics) + 1 \<rparr>)"
proof -
  obtain m0 s1 where i: "initFieldMetrics (el_path el) s = (m0, s1)"
    by (cases "initFieldMetrics (el_path el) s")
  have m0: "m0 = or_default (getFieldMetrics (el_path el) s) new_metrics"
    using initFieldMetrics_fst[of "el_path el" s] i by simp
  show ?thesis
    unfolding onFocus_def
    by (simp add: i Let_def get_after_enqueue get_put_metrics m0[symmetric])
qed

lemma onFocus_tracks:
  "currentFocusedField (snd (onFocus h el s)) = Some (el_path el) \<and>
   fieldFocusStartTime (snd (onFocus h el s)) = Some (perfNow h)"
proof -
  obtain m0 s1 where i: "initFieldMetrics (el_path el) s = (m0, s1)"
    by (cases "initFieldMetrics (el_path el) s")
  show ?thesis
    unfolding onFocus_def
    by (simp add: i Let_def enqueue_metrics put_metrics_def)
qed

lemma onBlur_untracks:
  "currentFocusedField (snd (onBlur h el s)) = None \<and>
   fieldFocusStartTime (snd (onBlur h el s)) = None"
  unfolding onBlur_def by (simp add: Let_def enqueue_metrics)

lemma onBlur_fieldMetrics:
  "fieldMetrics (snd (onBlur h el s)) =
     (if currentFocusedField s = Some (el_path el) \<and> truthy_time (fieldFocusStartTime s)
      then (case getFieldMetrics (el_path el) s of
              None \<Rightarrow> fieldMetrics s
            | Some m0 \<Rightarrow>
                DAList.update (el_path el)
                  (m0\<lparr> totalTimeSpent := totalTimeSpent m0 +
                         round (double_minus h (perfNow h) (or_default (fieldFocusStartTime s) 0)) \<rparr>)
                  (fieldMetrics s))
      else fieldMetrics s)"
  unfolding onBlur_def
  by (auto simp add: Let_def enqueue_metrics put_metrics_def split: option.splits)


lemma onBlur_other_field:
  "g \<noteq> el_path el \<or> currentFocusedField s \<noteq> Some (el_path el) \<Longrightarrow>
   getFieldMetrics g (snd (onBlur h el s)) = getFieldMetrics g s"
  by (auto simp add: getFieldMetrics_def onBlur_fieldMetrics split: option.splits)

lemma focus_then_blur:
  assumes "perfNow hf \<noteq> 0"
  shows "totalTimeSpent
           (or_default (getFieldMetrics (el_path el) (snd (onBlur hb el (snd (onFocus hf el s)))))
              new_metrics) =
         totalTimeSpent (or_default (getFieldMetrics (el_path el) s) new_metrics) +
           round (double_minus hb (perfNow hb) (perfNow hf))"
proof -
  let ?s1 = "snd (onFocus hf el s)"
  have "getFieldMetrics (el_path el) (snd (onBlur hb el ?s1)) =
     DAList.lookup (fieldMetrics (snd (onBlur hb el ?s1))) (el_path el)"
    by (simp add: getFieldMetrics_def)
  then show ?thesis
    using assms
    by (simp add: onBlur_fieldMetrics onFocus_tracks onFocus_metrics truthy_time_def
          or_default_def)
qed

text \<open>A focus whose clock reading is exactly zero is not counted by the blur after it.\<close>

lemma focus_reading_zero:
  assumes "perfNow hf = 0"
  shows "totalTimeSpent
           (or_default (getFieldMetrics (el_path el) (snd (onBlur hb el (snd (onFocus hf el s)))))
              new_metrics) =
         totalTimeSpent (or_default (getFieldMetrics (el_path el) s) new_metrics)"
proof -
  let ?s1 = "snd (onFocus hf el s)"
  have "getFieldMetrics (el_path el) (snd (onBlur hb el ?s1)) =
     DAList.lookup (fieldMetrics (snd (onBlur hb el ?s1))) (el_path el)"
    by (simp add: getFieldMetrics_def)
  moreover have "DAList.lookup (fieldMetrics ?s1) (el_path el) = getFieldMetrics (el_path el) ?s1"
    by (simp add: getFieldMetrics_def)
  ultimately show ?thesis
    using assms
    by (simp add: onBlur_fieldMetrics onFocus_tracks onFocus_metrics truthy_time_def
          or_default_def)
qed

lemma focus_blur_pairs_total:
  "\<forall>(hf, hb) \<in> set ps. perfNow hf \<noteq> 0 \<Longrightarrow>
   totalTimeSpent (or_default (getFieldMetrics (el_path el) (focus_blur_pairs el ps s)) new_metrics) =
     totalTimeSpent (or_default (getFieldMetrics (el_path el) s) new_metrics) +
       sum_list (map (\<lambda>(hf, hb). round (double_minus hb (perfNow hb) (perfNow hf))) ps)"
proof (induction ps arbitrary: s)
  case Nil
  then show ?case by simp
next
  case (Cons p ps)
  obtain hf hb where p: "p = (hf, hb)" by (cases p)
  from Cons.prems p have nz: "perfNow hf \<noteq> 0" and rest: "\<forall>(hf, hb) \<in> set ps. perfNow hf \<noteq> 0"
    by auto
  show ?case
    by (simp add: p Cons.IH[OF rest] focus_then_blur[OF nz])
qed


text \<open>
  What the handlers do on a run of focus and blur notices in alternation on one field,
  when no focus reading is zero: \<open>totalTimeSpent\<close> grows, for each pair, by the engine's
  difference of the two readings rounded to a whole number of milliseconds. A blur
  changes the record of a field only if that field is the blurred one and is the tracked
  focused field. One identifier is tracked: a focus replaces it by the focused field, a
  blur clears it.
\<close>

lemma time_spent_sums_rounded_intervals:
  "((\<forall>(hf, hb) \<in> set ps. perfNow hf \<noteq> 0) \<longrightarrow>
      totalTimeSpent
        (or_default (getFieldMetrics (el_path el) (focus_blur_pairs el ps s)) new_metrics) =
      totalTimeSpent (or_default (getFieldMetrics (el_path el) s) new_metrics) +
        sum_list (map (\<lambda>(hf, hb). round (double_minus hb (perfNow hb) (perfNow hf))) ps)) \<and>
   (g \<noteq> el_path el \<or> currentFocusedField s \<noteq> Some (el_path el) \<longrightarrow>
      getFieldMetrics g (snd (onBlur h el s)) = getFieldMetrics g s) \<and>
   currentFocusedField (snd (onFocus h el s)) = Some (el_path el) \<and>
   currentFocusedField (snd (onBlur h el s)) = None"
  using focus_blur_pairs_total[of ps el s] onBlur_other_field[of g el s h]
    onFocus_tracks[of h el s] onBlur_untracks[of h el s]
  by blast

lemma time_spent_two_visits:
  "totalTimeSpent
     (or_default
        (getFieldMetrics ''form#signup > input:nth-child(2)''
           (focus_blur_pairs (email_field None)
              [(browser 100, browser 350), (browser 1000, browser 1800)] (loaded 0)))
        new_metrics) = 1050"
proof -
  have p: "el_path (email_field None) = ''form#signup > input:nth-child(2)''"
    by (simp add: email_field_def)
  have e: "getFieldMetrics ''form#signup > input:nth-child(2)'' (loaded 0) = None"
    by (simp add: getFieldMetrics_def loaded_def)
  have n: "perfNow (browser t) = t" "double_minus (browser t) a b = a - b" for t a b
    by (simp_all add: perfNow_def browser_def)
  show ?thesis
    using focus_blur_pairs_total[of "[(browser 100, browser 350), (browser 1000, browser 1800)]"
        "email_field None" "loaded 0"]
    by (simp add: p e n or_default_def new_metrics_def)
qed

text \<open>
  Claim C4, at a failing input. The field is focused when the clock reads 0 and blurred
  when it reads 500. The sum of blur time minus focus time over the one pair is 500; the
  field's \<open>totalTimeSpent\<close> after the blur is 0, and so is the \<open>timeSpentMs\<close> of the blur
  record: \<open>onBlur\<close> takes the stored start reading 0 for no reading at all.
\<close>

theorem focus_at_reading_zero_is_lost:
  "sum_list (map (\<lambda>(hf, hb). perfNow hb - perfNow hf) [(browser 0, browser 500)]) = 500 \<and>
   totalTimeSpent
     (or_default
        (getFieldMetrics ''form#signup > input:nth-child(2)''
           (focus_blur_pairs (email_field None) [(browser 0, browser 500)] (loaded 0)))
        new_metrics) = 0 \<and>
   events (focus_blur_pairs (email_field None) [(browser 0, browser 500)] (loaded 0)) =
     [Focus 0 ''form'' (describe (email_field None)) 1 0 0,
      Blur 500 (describe (email_field None)) 0 0 0 0 0 0]"
  by (simp add: onFocus_def onBlur_def initFieldMetrics_def put_metrics_def
        getFieldMetrics_def enqueue_def loaded_def DEFAULTS_def browser_def perfNow_def
        stamp_def truthy_time_def or_default_def email_field_def new_metrics_def Let_def)

section \<open>Properties of the public API\<close>

lemma queue_only_lifecycle:
  assumes "queue_only s s'"
  shows "isInitialized s' = isInitialized s"
    and "isUnloading s' = isUnloading s"
    and "sessionId s' = sessionId s"
    and "config s' = config s"
proof -
  note eq = assms[unfolded queue_only_def]
  show "isInitialized s' = isInitialized s"
    using arg_cong[OF eq, of isInitialized] by simp
  show "isUnloading s' = isUnloading s"
    using arg_cong[OF eq, of isUnloading] by simp
  show "sessionId s' = sessionId s"
    using arg_cong[OF eq, of sessionId] by simp
  show "config s' = config s"
    using arg_cong[OF eq, of config] by simp
qed

lemma queue_only_timers:
  assumes "queue_only s s'"
  shows "timers s' = timers s"
    and "timer_seq s' = timer_seq s"
    and "flushTimer s' = flushTimer s"
    and "mutationTimer s' = mutationTimer s"
    and "mutationBuffer s' = mutationBuffer s"
proof -
  note eq = assms[unfolded queue_only_def]
  show "timers s' = timers s"
    using arg_cong[OF eq, of timers] by simp
  show "timer_seq s' = timer_seq s"
    using arg_cong[OF eq, of timer_seq] by simp
  show "flushTimer s' = flushTimer s"
    using arg_cong[OF eq, of flushTimer] by simp
  show "mutationTimer s' = mutationTimer s"
    using arg_cong[OF eq, of mutationTimer] by simp
  show "mutationBuffer s' = mutationBuffer s"
    using arg_cong[OF eq, of mutationBuffer] by simp
qed

lemma queue_only_registrations:
  assumes "queue_only s s'"
  shows "heartbeats s' = heartbeats s"
    and "formListeners s' = formListeners s"
    and "windowListeners s' = windowListeners s"
    and "unloadListeners s' = unloadListeners s"
    and "visibilityListeners s' = visibilityListeners s"
    and "consoleWraps s' = consoleWraps s"
    and "fetchWraps s' = fetchWraps s"
    and "xhrWraps s' = xhrWraps s"
    and "observer s' = observer s"
    and "strayObservers s' = strayObservers s"
proof -
  note eq = assms[unfolded queue_only_def]
  show "heartbeats s' = heartbeats s"
    using arg_cong[OF eq, of heartbeats] by simp
  show "formListeners s' = formListeners s"
    using arg_cong[OF eq, of formListeners] by simp
  show "windowListeners s' = windowListeners s"
    using arg_cong[OF eq, of windowListeners] by simp
  show "unloadListeners s' = unloadListeners s"
    using arg_cong[OF eq, of unloadListeners] by simp
  show "visibilityListeners s' = visibilityListeners s"
    using arg_cong[OF eq, of visibilityListeners] by simp
  show "consoleWraps s' = consoleWraps s"
    using arg_cong[OF eq, of consoleWraps] by simp
  show "fetchWraps s' = fetchWraps s"
    using arg_cong[OF eq, of fetchWraps] by simp
  show "xhrWraps s' = xhrWraps s"
    using arg_cong[OF eq, of xhrWraps] by simp
  show "observer s' = observer s"
    using arg_cong[OF eq, of observer] by simp
  show "strayObservers s' = strayObservers s"
    using arg_cong[OF eq, of strayObservers] by simp
qed

lemmas enqueue_lifecycle = queue_only_lifecycle[OF enqueue_queue_only]
lemmas enqueue_timers = queue_only_timers[OF enqueue_queue_only]
lemmas enqueue_registrations = queue_only_registrations[OF enqueue_queue_only]
lemmas flush_lifecycle = queue_only_lifecycle[OF flush_queue_only]
lemmas flush_timers = queue_only_timers[OF flush_queue_only]
lemmas flush_registrations = queue_only_registrations[OF flush_queue_only]

lemma and_then_cases:
  "and_then r f = (if fst r = None then f (snd r) else r)"
  by (cases r) (auto simp add: and_then_def)

lemma scheduleFlush_isInitialized: "isInitialized (scheduleFlush s) = isInitialized s"
  by (simp add: scheduleFlush_def setTimeout_def Let_def)

lemma init_rest_isInitialized: "isInitialized (snd (init_rest h s)) = isInitialized s"
  by (simp add: init_rest_def Let_def and_then_cases enqueue_lifecycle scheduleFlush_isInitialized)

lemma init_sets_flag: "isInitialized (snd (init h opts s))"
  by (simp add: init_def Let_def init_rest_isInitialized observeMutations_def
        split: query_result.splits)

lemma stop_never_throws: "fst (stop h s) = None"
  by (simp add: stop_def ignoring_def)

lemma enqueue_with_fetch: "has_fetch h \<Longrightarrow> fst (enqueue h e s) = None"
  by (simp add: enqueue_def flush_def send_fetch_def Let_def
        split: option.splits beacon_result.splits)

lemma flush_with_fetch: "has_fetch h \<Longrightarrow> fst (flush h s) = None"
  by (simp add: flush_def send_fetch_def Let_def split: option.splits beacon_result.splits)

lemma init_returns_normally:
  "has_fetch h \<Longrightarrow> querySelector h (or_default (o_formSelector opts) ''form'') \<noteq> SelectorInvalid \<Longrightarrow>
   fst (init h opts s) = None"
  by (simp add: init_def init_rest_def Let_def and_then_cases enqueue_with_fetch assign_def
        DEFAULTS_def split: query_result.splits)

text \<open>
  Claim C9. A call of \<open>init\<close> on an initialized SDK returns at once: no exception and
  the very same state, so the session identifier, the listeners, the timers and every
  other field are as they were. Whatever a first call of \<open>init\<close> did, a second call
  right after it is such a call.
\<close>

theorem init_when_initialized:
  "(isInitialized s \<longrightarrow> init h opts s = (None, s)) \<and>
   init h' opts' (snd (init h opts s)) = (None, snd (init h opts s))"
  using init_sets_flag[of h opts s] by (simp add: init_def)

theorem init_when_initialized_witness:
  "isInitialized (snd (init (browser 0) no_options (loaded 0))) \<and>
   init (browser 9) bad_selector (snd (init (browser 0) no_options (loaded 0))) =
     (None, snd (init (browser 0) no_options (loaded 0)))"
  using init_when_initialized[of "snd (init (browser 0) no_options (loaded 0))" "browser 9"
      bad_selector]
    init_sets_flag[of "browser 0" no_options "loaded 0"]
  by simp

text \<open>
  Claim C5, at a failing input. \<open>init\<close> with a \<open>formSelector\<close> that is not a selector
  (here \<open>[\<close>) lets the \<open>SyntaxError\<close> of \<open>document.querySelector\<close> escape, and leaves
  the SDK marked initialized with no listener, wrapper or timer set up.
\<close>

theorem init_throws_on_invalid_selector:
  "fst (init (browser 0) bad_selector (loaded 0)) = Some SyntaxError \<and>
   isInitialized (snd (init (browser 0) bad_selector (loaded 0))) \<and>
   timers (snd (init (browser 0) bad_selector (loaded 0))) = [] \<and>
   windowListeners (snd (init (browser 0) bad_selector (loaded 0))) = 0"
  by (simp add: init_def bad_selector_def no_options_def assign_def or_default_def
        DEFAULTS_def browser_def loaded_def)


text \<open>
  The same escape on a host without \<open>fetch\<close>, once an \<open>enqueue\<close> inside \<open>init\<close>
  reaches the batch size: \<open>flush\<close> calls \<open>fetch\<close> unguarded.
\<close>

lemma init_throws_without_fetch:
  "fst (init ((browser 0)\<lparr> has_fetch := False \<rparr>) (no_options\<lparr> o_batchSize := Some 1 \<rparr>)
          (loaded 0)) = Some ReferenceError"
  by (simp add: init_def init_rest_def enqueue_def flush_def send_fetch_def and_then_def
        no_options_def assign_def or_default_def DEFAULTS_def browser_def loaded_def
        observeMutations_def Let_def)

section \<open>Properties of the retry\<close>

lemma wrapper_rejected:
  "has_fetch h \<Longrightarrow>
   wrapper h rq (Rejected err) s = (Rejected err, snd (enqueue h (networkFail_record h rq err) s))"
  using enqueue_with_fetch[of h "networkFail_record h rq err" s]
  by (cases "enqueue h (networkFail_record h rq err) s")
     (simp add: wrapper_def wrapper_catch_def networkFail_record_def)

lemma wrapper_fulfilled:
  "has_fetch h \<Longrightarrow>
   wrapper h rq (Fulfilled res) s =
     (Fulfilled res, if r_ok res then s else snd (enqueue h (httpError_record h rq res) s))"
  using enqueue_with_fetch[of h "httpError_record h rq res" s]
  by (cases "enqueue h (httpError_record h rq res) s")
     (simp add: wrapper_def httpError_record_def)

lemma wrappers_rejected:
  "has_fetch h \<Longrightarrow>
   wrappers h rq n (Rejected err) s =
     (Rejected err, enqueue_all h (replicate n (networkFail_record h rq err)) s)"
  by (induction n arbitrary: s) (simp_all add: wrapper_rejected)

lemma wrappers_fulfilled:
  "has_fetch h \<Longrightarrow>
   wrappers h rq n (Fulfilled res) s =
     (Fulfilled res,
      if r_ok res then s else enqueue_all h (replicate n (httpError_record h rq res)) s)"
  by (induction n arbitrary: s) (simp_all add: wrapper_fulfilled)

lemma enqueue_all_passed: "passed (enqueue_all h es s) = passed s @ es"
  by (induction es arbitrary: s) (simp_all add: enqueue_passed)


lemma flush_issues:
  assumes "events s \<noteq> []" and "\<not> beacon_takes h s" and "has_fetch h"
  shows "flush h s =
     (None, s\<lparr> events := drop (batchSize (config s)) (events s),
               outbound := outbound s @ [rq_body (issued h s)],
               request_seq := Suc (request_seq s),
               inflight := inflight s @ [issued h s] \<rparr>)"
  using assms
  by (auto simp add: flush_def send_fetch_def issued_def beacon_takes_def Let_def
        split: option.splits beacon_result.splits)

lemma flush_issues_nothing:
  assumes "events s = [] \<or> beacon_takes h s"
  shows "fst (flush h s) = None \<and> inflight (snd (flush h s)) = inflight s"
  using assms
  by (auto simp add: flush_def send_fetch_def beacon_takes_def Let_def
        split: option.splits beacon_result.splits)

lemma init_started: "init (browser 5) no_options (loaded 0) = (None, started)"
  by (simp add: init_def init_rest_def and_then_def enqueue_def scheduleFlush_def setTimeout_def
       observeMutations_def assign_def or_default_def no_options_def DEFAULTS_def loaded_def
       browser_def stamp_def perfNow_def started_def Let_def)

text \<open>
  Claim C2. A batch comes back into the buffer exactly when its request is rejected.
  On a host that has \<open>fetch\<close>, when the buffer is not empty and the beacon does not take
  the batch, \<open>flush\<close> throws nothing, removes the first \<open>batchSize\<close> records from the
  buffer and puts one request in flight whose body is those records. When that
  request is rejected (it could not complete), the buffer afterwards is those records,
  in their order, followed by everything that was in the buffer when the handler of
  \<open>flush\<close> ran: the records enqueued since the send, and after them the \<open>networkFail\<close>
  records that the \<open>wrapFetch\<close> layers have just made of this failure. When it is
  fulfilled with a response, whatever its status, nothing of the batch comes back: the
  layers record an \<open>httpError\<close> for a response that is not ok, and that is all that
  enters the queue. When the buffer is empty or the beacon takes the batch, \<open>flush\<close> puts
  no request in flight, so there is nothing to settle and nothing to bring back. The
  same holds of any request \<open>rq\<close> in flight, and the settling of the request in flight
  with number \<open>i\<close> is the step \<open>Settles i\<close> of a run.
\<close>

theorem requeue_on_network_failure_only:
  "has_fetch h \<Longrightarrow>
   (events s0 \<noteq> [] \<and> \<not> beacon_takes h0 s0 \<and> has_fetch h0 \<longrightarrow>
      flush h0 s0 =
        (None, s0\<lparr> events := drop (batchSize (config s0)) (events s0),
                   outbound := outbound s0 @ [rq_body (issued h0 s0)],
                   request_seq := Suc (request_seq s0),
                   inflight := inflight s0 @ [issued h0 s0] \<rparr>) \<and>
      b_events (rq_body (issued h0 s0)) = take (batchSize (config s0)) (events s0) \<and>
      events (settle h (issued h0 s0) (Rejected err) s) =
        take (batchSize (config s0)) (events s0) @
        events (enqueue_all h (replicate (fetchWraps s0) (networkFail_record h (issued h0 s0) err))
                  (s\<lparr> inflight := filter (\<lambda>r. rq_id r \<noteq> Suc (request_seq s0)) (inflight s) \<rparr>)) \<and>
      events (settle h (issued h0 s0) (Fulfilled res) s) =
        events (if r_ok res then s
                else enqueue_all h
                       (replicate (fetchWraps s0) (httpError_record h (issued h0 s0) res))
                       (s\<lparr> inflight := filter (\<lambda>r. rq_id r \<noteq> Suc (request_seq s0)) (inflight s) \<rparr>))) \<and>
   (events s0 = [] \<or> beacon_takes h0 s0 \<longrightarrow>
      fst (flush h0 s0) = None \<and> inflight (snd (flush h0 s0)) = inflight s0) \<and>
   (find (\<lambda>r. rq_id r = i) (inflight s) = Some rq \<longrightarrow>
      step h (Settles i result) s = (None, settle h rq result s)) \<and>
   events (settle h rq (Rejected err) s) =
     b_events (rq_body rq) @
     events (enqueue_all h (replicate (rq_wraps rq) (networkFail_record h rq err))
               (s\<lparr> inflight := filter (\<lambda>r. rq_id r \<noteq> rq_id rq) (inflight s) \<rparr>)) \<and>
   events (settle h rq (Fulfilled res) s) =
     events (if r_ok res then s
             else enqueue_all h (replicate (rq_wraps rq) (httpError_record h rq res))
                    (s\<lparr> inflight := filter (\<lambda>r. rq_id r \<noteq> rq_id rq) (inflight s) \<rparr>)) \<and>
   passed (settle h rq (Fulfilled res) s) =
     passed s @ (if r_ok res then [] else replicate (rq_wraps rq) (httpError_record h rq res))"
proof -
  assume f: "has_fetch h"
  have a: "events (settle h r (Rejected err) s) =
     b_events (rq_body r) @
     events (enqueue_all h (replicate (rq_wraps r) (networkFail_record h r err))
               (s\<lparr> inflight := filter (\<lambda>r'. rq_id r' \<noteq> rq_id r) (inflight s) \<rparr>))" for r
    by (simp add: settle_def Let_def wrappers_rejected[OF f] flush_catch_def)
  have b: "events (settle h r (Fulfilled res) s) =
     events (if r_ok res then s
             else enqueue_all h (replicate (rq_wraps r) (httpError_record h r res))
                    (s\<lparr> inflight := filter (\<lambda>r'. rq_id r' \<noteq> rq_id r) (inflight s) \<rparr>))" for r
    by (simp add: settle_def Let_def wrappers_fulfilled[OF f] flush_then_def)
  let ?s0 = "s\<lparr> inflight := filter (\<lambda>r. rq_id r \<noteq> rq_id rq) (inflight s) \<rparr>"
  have p0: "passed ?s0 = passed s"
    by (simp add: passed_def)
  have c: "passed (settle h rq (Fulfilled res) s) =
     passed s @ (if r_ok res then [] else replicate (rq_wraps rq) (httpError_record h rq res))"
  proof (cases "r_ok res")
    case True
    then show ?thesis
      by (simp add: settle_def Let_def wrappers_fulfilled[OF f] flush_then_def passed_def)
  next
    case False
    have "passed (settle h rq (Fulfilled res) s) =
          passed (enqueue_all h (replicate (rq_wraps rq) (httpError_record h rq res)) ?s0)"
      using False
      by (simp add: settle_def Let_def wrappers_fulfilled[OF f] flush_then_def passed_def)
    with False show ?thesis
      by (simp add: enqueue_all_passed p0)
  qed
  have i: "rq_id (issued h0 s0) = Suc (request_seq s0)" "rq_wraps (issued h0 s0) = fetchWraps s0"
    "b_events (rq_body (issued h0 s0)) = take (batchSize (config s0)) (events s0)"
    by (simp_all add: issued_def)
  have d: "step h (Settles i result) s = (None, settle h rq result s)"
    if "find (\<lambda>r. rq_id r = i) (inflight s) = Some rq"
    using that by (simp add: step_def)
  from a[of "issued h0 s0"] b[of "issued h0 s0"] a[of rq] b[of rq] c d
    flush_issues[of s0 h0] flush_issues_nothing[of s0 h0]
  show ?thesis
    unfolding i by blast
qed


theorem requeue_on_network_failure_only_witness:
  "has_fetch (browser 5000) \<and> has_fetch (browser 4005) \<and>
   events (started\<lparr> timers := [], flushTimer := None \<rparr>) \<noteq> [] \<and>
   \<not> beacon_takes (browser 4005) (started\<lparr> timers := [], flushTimer := None \<rparr>) \<and>
   run [(browser 5, Init no_options)] (loaded 0) = started \<and>
   inflight (run sent_once (loaded 0)) =
     [\<lparr> rq_id = 1,
        rq_body = \<lparr> b_sessionId = Some ''4f0c7a52-9d1e-4b6a-8c33-5e2f7a9b1d04'',
                    b_startedAt = 0, b_events = [SessionStart 5 ''/checkout''] \<rparr>,
        rq_url = ''/api/fxt/events'', rq_wraps = 1, rq_start = 4005 \<rparr>] \<and>
   events (run sent_once (loaded 0)) = [ScriptError 4500 ''x is not defined'' ''checkout.js''] \<and>
   events (run (sent_once @
                [(browser 5000, Settles 1 (Rejected ''TypeError: Failed to fetch''))]) (loaded 0)) =
     [SessionStart 5 ''/checkout'', ScriptError 4500 ''x is not defined'' ''checkout.js'',
      NetworkError 5000 (Some ''/api/fxt/events'')
        (NetworkFail (Some ''TypeError: Failed to fetch'')) 995] \<and>
   events (run (sent_once @
                [(browser 5000, Settles 1 (Fulfilled \<lparr> r_ok = False, r_status = 503,
                    r_statusText = ''Service Unavailable'' \<rparr>))]) (loaded 0)) =
     [ScriptError 4500 ''x is not defined'' ''checkout.js'',
      NetworkError 5000 (Some ''/api/fxt/events'')
        (HttpError 503 (Some ''Service Unavailable'')) 995]"
proof -
  let ?rq = "\<lparr> rq_id = 1,
        rq_body = \<lparr> b_sessionId = Some ''4f0c7a52-9d1e-4b6a-8c33-5e2f7a9b1d04'',
                    b_startedAt = 0, b_events = [SessionStart 5 ''/checkout''] \<rparr>,
        rq_url = ''/api/fxt/events'', rq_wraps = 1, rq_start = 4005 \<rparr>"
  let ?res = "\<lparr> r_ok = False, r_status = 503, r_statusText = ''Service Unavailable'' \<rparr>"
  let ?err = "''TypeError: Failed to fetch''"
  let ?e = "ScriptError 4500 ''x is not defined'' ''checkout.js''"
  define s0 where "s0 = started\<lparr> timers := [], flushTimer := None \<rparr>"
  define s3 where "s3 = run sent_once (loaded 0)"
  have f: "has_fetch (browser 5000)" "has_fetch (browser 4005)"
    by (simp_all add: browser_def)
  have n: "perfNow (browser t) = t" "stamp (browser t) = round t"
    "double_minus (browser t) a b = a - b" for t a b
    by (simp_all add: perfNow_def stamp_def browser_def)
  have e0: "events s0 \<noteq> []"
    by (simp add: s0_def started_def)
  have b0: "\<not> beacon_takes (browser 4005) s0"
    by (simp add: beacon_takes_def s0_def started_def browser_def)
  have i0: "issued (browser 4005) s0 = ?rq"
    by (simp add: issued_def s0_def started_def DEFAULTS_def n)
  have r1: "run [(browser 5, Init no_options)] (loaded 0) = started"
    by (simp add: step_def init_started)
  note t = requeue_on_network_failure_only[OF f(1), of s0 "browser 4005" ?err s3 ?res 1 ?rq]
  have fl: "flush (browser 4005) s0 =
        (None, s0\<lparr> events := drop (batchSize (config s0)) (events s0),
                   outbound := outbound s0 @ [rq_body (issued (browser 4005) s0)],
                   request_seq := Suc (request_seq s0),
                   inflight := inflight s0 @ [issued (browser 4005) s0] \<rparr>)"
    using t e0 b0 f(2) by blast
  have t1: "fire (browser 4005) 1 started = flush_tick (browser 4005) (started\<lparr> timers := [] \<rparr>)"
    by (simp add: fire_def started_def)
  have t2: "flush_tick (browser 4005) (started\<lparr> timers := [] \<rparr>) =
            and_then (flush (browser 4005) s0) (\<lambda>s1. (None, scheduleFlush s1))"
    by (simp add: flush_tick_def s0_def)
  have s3: "s3 = started\<lparr> timers := [(2, FlushTick)], flushTimer := Some 2, timer_seq := 2,
                events := [?e], outbound := [rq_body ?rq], request_seq := 1, inflight := [?rq] \<rparr>"
  proof -
    have a1: "run sent_once (loaded 0) =
              snd (enqueue (browser 4500) ?e (snd (fire (browser 4005) 1 started)))"
      by (simp add: sent_once_def step_def init_started)
    have a2: "snd (fire (browser 4005) 1 started) =
              scheduleFlush (s0\<lparr> events := drop (batchSize (config s0)) (events s0),
                   outbound := outbound s0 @ [rq_body ?rq],
                   request_seq := Suc (request_seq s0),
                   inflight := inflight s0 @ [?rq] \<rparr>)"
      unfolding t1 t2 fl i0 by (simp add: and_then_def)
    show ?thesis
      unfolding s3_def a1 a2
      by (simp add: scheduleFlush_def setTimeout_def enqueue_def Let_def s0_def started_def
            DEFAULTS_def)
  qed
  have fi: "find (\<lambda>r. rq_id r = 1) (inflight s3) = Some ?rq"
    by (simp add: s3)
  have st: "step (browser 5000) (Settles 1 result) s3 = (None, settle (browser 5000) ?rq result s3)"
    for result
    using requeue_on_network_failure_only[OF f(1), of s0 "browser 4005" ?err s3 ?res 1 ?rq result] fi
    by blast
  have ap: "run (xs @ ys) s = run ys (run xs s)" for xs ys s
    by (induction xs arbitrary: s) auto
  have ru: "run (sent_once @ [(browser 5000, Settles 1 result)]) (loaded 0) =
            settle (browser 5000) ?rq result s3" for result
    using st[of result] by (simp add: ap s3_def[symmetric])
  have s3': "s3\<lparr> inflight := filter (\<lambda>r. rq_id r \<noteq> Suc (request_seq s0)) (inflight s3) \<rparr> =
             s3\<lparr> inflight := [] \<rparr>"
    by (simp add: s3 s0_def started_def)
  have w: "fetchWraps s0 = 1" "take (batchSize (config s0)) (events s0) = [SessionStart 5 ''/checkout'']"
    by (simp_all add: s0_def started_def DEFAULTS_def)
  have en: "events (snd (enqueue (browser 5000) x (s3\<lparr> inflight := [] \<rparr>))) = [?e, x]" for x
    by (simp add: enqueue_def Let_def s3 started_def DEFAULTS_def)
  have "events (settle (browser 5000) (issued (browser 4005) s0) (Rejected ?err) s3) =
        take (batchSize (config s0)) (events s0) @
        events (enqueue_all (browser 5000)
                  (replicate (fetchWraps s0)
                     (networkFail_record (browser 5000) (issued (browser 4005) s0) ?err))
                  (s3\<lparr> inflight := filter (\<lambda>r. rq_id r \<noteq> Suc (request_seq s0)) (inflight s3) \<rparr>))"
    using t e0 b0 f(2) by blast
  then have rj: "events (settle (browser 5000) ?rq (Rejected ?err) s3) =
     [SessionStart 5 ''/checkout'', ?e,
      NetworkError 5000 (Some ''/api/fxt/events'') (NetworkFail (Some ?err)) 995]"
    unfolding i0 s3' w
    by (simp add: en networkFail_record_def n round_def)
  have "events (settle (browser 5000) (issued (browser 4005) s0) (Fulfilled ?res) s3) =
        events (if r_ok ?res then s3
                else enqueue_all (browser 5000)
                       (replicate (fetchWraps s0)
                          (httpError_record (browser 5000) (issued (browser 4005) s0) ?res))
                       (s3\<lparr> inflight := filter (\<lambda>r. rq_id r \<noteq> Suc (request_seq s0)) (inflight s3) \<rparr>))"
    using t e0 b0 f(2) by blast
  then have ff: "events (settle (browser 5000) ?rq (Fulfilled ?res) s3) =
     [?e, NetworkError 5000 (Some ''/api/fxt/events'') (HttpError 503 (Some ''Service Unavailable'')) 995]"
    unfolding i0 s3' w
    by (simp add: en httpError_record_def n round_def)
  have inf: "inflight s3 = [?rq]" "events s3 = [?e]"
    by (simp_all add: s3)
  from f e0 b0 r1 inf rj ff show ?thesis
    unfolding ru s3_def s0_def by blast
qed

section \<open>Properties of the timers\<close>

lemma same_timers_refl: "same_timers s s"
  by (simp add: same_timers_def)

lemma same_timers_trans: "same_timers s s1 \<Longrightarrow> same_timers s1 s2 \<Longrightarrow> same_timers s s2"
  by (simp add: same_timers_def)

lemma same_timers_ok: "same_timers s s' \<Longrightarrow> timers_ok s \<Longrightarrow> timers_ok s'"
  by (simp add: same_timers_def timers_ok_def)

lemma queue_only_same_timers: "queue_only s s' \<Longrightarrow> same_timers s s'"
  by (simp add: same_timers_def queue_only_timers)

lemma enqueue_same_timers: "same_timers s (snd (enqueue h e s))"
  by (rule queue_only_same_timers[OF enqueue_queue_only])

lemma flush_same_timers: "same_timers s (snd (flush h s))"
  by (rule queue_only_same_timers[OF flush_queue_only])

lemma summary_same_timers: "same_timers s (snd (sendFieldMetricsSummary h reason s))"
  by (simp add: sendFieldMetricsSummary_def enqueue_same_timers)

lemma and_then_same_timers:
  assumes "same_timers s (snd r)" and "\<And>s1. same_timers s1 (snd (f s1))"
  shows "same_timers s (snd (and_then r f))"
  using assms same_timers_trans by (auto simp add: and_then_cases)

lemma final_flush_same_timers: "same_timers s (snd (final_flush h reason s))"
  unfolding final_flush_def
  by (intro and_then_same_timers summary_same_timers enqueue_same_timers flush_same_timers)

lemma init_metrics_same_timers: "same_timers s (snd (initFieldMetrics f s))"
  by (simp add: initFieldMetrics_def same_timers_def split: option.splits)

lemma put_metrics_same_timers: "same_timers s (put_metrics f m s)"
  by (simp add: put_metrics_def same_timers_def)

lemma onFocus_same_timers: "same_timers s (snd (onFocus h el s))"
proof -
  obtain m0 s1 where i: "initFieldMetrics (el_path el) s = (m0, s1)"
    by (cases "initFieldMetrics (el_path el) s")
  have 1: "same_timers s s1"
    using init_metrics_same_timers[of s "el_path el"] i by simp
  have 2: "same_timers s1 (put_metrics f m (s1\<lparr> currentFocusedField := c, fieldFocusStartTime := t \<rparr>))"
    for f m c t
    by (simp add: put_metrics_def same_timers_def)
  show ?thesis
    unfolding onFocus_def
    by (simp add: i Let_def)
       (rule same_timers_trans[OF same_timers_trans[OF 1 2] enqueue_same_timers])
qed


lemma enqueue_put_same_timers:
  "same_timers s s1 \<Longrightarrow> same_timers s (snd (enqueue h e (put_metrics f m s1)))"
  by (rule same_timers_trans[OF same_timers_trans[OF _ put_metrics_same_timers]
        enqueue_same_timers])

lemma onBlur_same_timers: "same_timers s (snd (onBlur h el s))"
proof -
  have 1: "same_timers s (s1\<lparr> currentFocusedField := c, fieldFocusStartTime := t \<rparr>)"
    if "same_timers s s1" for s1 c t
    using that by (simp add: same_timers_def)
  have 2: "same_timers s
     (if b then (case found of None \<Rightarrow> s | Some m0 \<Rightarrow> put_metrics f (g m0) s) else s)"
    for b found f g
    by (simp add: same_timers_refl put_metrics_same_timers split: option.splits)
  show ?thesis
    unfolding onBlur_def Let_def
    by (rule same_timers_trans[OF 1[OF 2] enqueue_same_timers])
qed

lemma onChange_same_timers: "same_timers s (snd (onChange h el s))"
proof -
  obtain m0 s1 where i: "initFieldMetrics (el_path el) s = (m0, s1)"
    by (cases "initFieldMetrics (el_path el) s")
  have 1: "same_timers s s1"
    using init_metrics_same_timers[of s "el_path el"] i by simp
  show ?thesis
    unfolding onChange_def Let_def
    by (simp add: i enqueue_put_same_timers[OF 1])
qed

lemma onInvalid_same_timers: "same_timers s (snd (onInvalid h el s))"
proof -
  obtain m0 s1 where i: "initFieldMetrics (el_path el) s = (m0, s1)"
    by (cases "initFieldMetrics (el_path el) s")
  have 1: "same_timers s s1"
    using init_metrics_same_timers[of s "el_path el"] i by simp
  show ?thesis
    unfolding onInvalid_def Let_def
    by (simp add: i enqueue_put_same_timers[OF 1])
qed

lemma onKeyDown_same_timers: "same_timers s (onKeyDown el pressed s)"
proof -
  obtain m0 s1 where i: "initFieldMetrics (el_path el) s = (m0, s1)"
    by (cases "initFieldMetrics (el_path el) s")
  have 1: "same_timers s s1"
    using init_metrics_same_timers[of s "el_path el"] i by simp
  show ?thesis
    unfolding onKeyDown_def Let_def
    by (auto simp add: i same_timers_refl 1
          intro: same_timers_trans[OF 1 put_metrics_same_timers])
qed

lemma onPaste_same_timers: "same_timers s (snd (onPaste h el s))"
proof -
  obtain m0 s1 where i: "initFieldMetrics (el_path el) s = (m0, s1)"
    by (cases "initFieldMetrics (el_path el) s")
  have 1: "same_timers s s1"
    using init_metrics_same_timers[of s "el_path el"] i by simp
  show ?thesis
    unfolding onPaste_def Let_def
    by (simp add: i same_timers_refl enqueue_put_same_timers[OF 1])
qed

lemma onHeartbeat_same_timers: "same_timers s (snd (onHeartbeat h s))"
  unfolding onHeartbeat_def
  by (rule and_then_same_timers[OF enqueue_same_timers])
     (simp add: summary_same_timers same_timers_refl)

lemma onBeforeUnload_same_timers: "same_timers s (snd (onBeforeUnload h s))"
proof -
  have 1: "same_timers s (s\<lparr> isUnloading := True \<rparr>)"
    by (simp add: same_timers_def)
  show ?thesis
    unfolding onBeforeUnload_def ignoring_def
    by (simp add: same_timers_trans[OF 1 final_flush_same_timers])
qed

lemma onVisibilityChange_same_timers: "same_timers s (snd (onVisibilityChange h hidden s))"
proof -
  have 1: "same_timers s (s\<lparr> isUnloading := True \<rparr>)"
    by (simp add: same_timers_def)
  show ?thesis
    unfolding onVisibilityChange_def
    by (simp add: same_timers_refl same_timers_trans[OF 1 final_flush_same_timers])
qed

lemma wrapper_catch_same_timers: "same_timers s (snd (wrapper_catch h rq err s))"
proof -
  let ?e = "NetworkError (stamp h) (Some (rq_url rq)) (NetworkFail (Some (take 300 err)))
              (round (double_minus h (perfNow h) (rq_start rq)))"
  obtain r s1 where e: "enqueue h ?e s = (r, s1)"
    by (cases "enqueue h ?e s")
  have "same_timers s s1"
    using enqueue_same_timers[of s h ?e] e by simp
  then show ?thesis
    by (simp add: wrapper_catch_def e split: option.splits)
qed

lemma wrapper_same_timers: "same_timers s (snd (wrapper h rq incoming s))"
proof (cases incoming)
  case (Fulfilled res)
  let ?e = "NetworkError (stamp h) (Some (rq_url rq))
              (HttpError (r_status res) (Some (r_statusText res)))
              (round (double_minus h (perfNow h) (rq_start rq)))"
  obtain r s1 where e: "enqueue h ?e s = (r, s1)"
    by (cases "enqueue h ?e s")
  have 1: "same_timers s s1"
    using enqueue_same_timers[of s h ?e] e by simp
  show ?thesis
    by (auto simp add: wrapper_def Fulfilled e same_timers_refl 1 split: option.splits
          intro: same_timers_trans[OF 1 wrapper_catch_same_timers])
next
  case (Rejected err)
  then show ?thesis
    by (simp add: wrapper_def wrapper_catch_same_timers)
qed

lemma wrappers_same_timers: "same_timers s (snd (wrappers h rq n incoming s))"
proof (induction n arbitrary: incoming s)
  case 0
  then show ?case by (simp add: same_timers_refl)
next
  case (Suc n)
  obtain o1 s1 where w: "wrapper h rq incoming s = (o1, s1)"
    by (cases "wrapper h rq incoming s")
  have "same_timers s s1"
    using wrapper_same_timers[of s h rq incoming] w by simp
  then show ?case
    using Suc[of s1 o1] by (simp add: w same_timers_trans)
qed

lemma settle_same_timers: "same_timers s (settle h rq result s)"
proof -
  let ?s0 = "s\<lparr> inflight := filter (\<lambda>r. rq_id r \<noteq> rq_id rq) (inflight s) \<rparr>"
  obtain o1 s1 where w: "wrappers h rq (rq_wraps rq) result ?s0 = (o1, s1)"
    by (cases "wrappers h rq (rq_wraps rq) result ?s0")
  have 0: "same_timers s ?s0"
    by (simp add: same_timers_def)
  have "same_timers ?s0 s1"
    using wrappers_same_timers[of ?s0 h rq "rq_wraps rq" result] w by simp
  with 0 have "same_timers s s1"
    by (rule same_timers_trans)
  then show ?thesis
    by (cases o1) (simp_all add: settle_def Let_def w flush_then_def flush_catch_def same_timers_def)
qed

subsection \<open>The timer table\<close>

lemma table_ok_iff:
  "table_ok ts seq fl mu \<longleftrightarrow>
     distinct (map fst ts) \<and>
     (\<forall>i k. (i, k) \<in> set ts \<longrightarrow>
        i \<le> seq \<and> (k = FlushTick \<longrightarrow> fl = Some i) \<and> (k = MutationTick \<longrightarrow> mu = Some i)) \<and>
     (\<forall>i. fl = Some i \<longrightarrow> i \<le> seq \<and> mu \<noteq> Some i) \<and>
     (\<forall>i. mu = Some i \<longrightarrow> i \<le> seq)"
proof -
  have "(case k of FlushTick \<Rightarrow> fl = Some i | MutationTick \<Rightarrow> mu = Some i) =
        ((k = FlushTick \<longrightarrow> fl = Some i) \<and> (k = MutationTick \<longrightarrow> mu = Some i))" for i k
    by (cases k) simp_all
  then show ?thesis
    by (cases fl; cases mu) (auto simp add: table_ok_def list_all_iff Ball_def)
qed

lemma in_snd_set: "k \<in> snd ` set ts \<longleftrightarrow> (\<exists>i. (i, k) \<in> set ts)"
  by force

lemma table_ok_none_flush:
  "table_ok ts seq fl mu \<Longrightarrow> FlushTick \<notin> snd ` set ts \<Longrightarrow> table_ok ts seq None mu"
  unfolding table_ok_iff in_snd_set by blast

lemma table_ok_none_mutation:
  "table_ok ts seq fl mu \<Longrightarrow> MutationTick \<notin> snd ` set ts \<Longrightarrow> table_ok ts seq fl None"
  unfolding table_ok_iff in_snd_set by blast

lemma table_ok_no_handle:
  "table_ok ts seq None mu \<Longrightarrow> FlushTick \<notin> snd ` set ts"
  "table_ok ts seq fl None \<Longrightarrow> MutationTick \<notin> snd ` set ts"
  unfolding table_ok_iff in_snd_set by blast+

lemma table_ok_filter:
  "table_ok ts seq fl mu \<Longrightarrow> table_ok (filter P ts) seq fl mu"
  unfolding table_ok_iff by (auto simp add: distinct_map_filter)

lemma table_ok_arm_flush:
  assumes "table_ok ts seq None mu"
  shows "table_ok (ts @ [(Suc seq, FlushTick)]) (Suc seq) (Some (Suc seq)) mu"
proof -
  from assms have d: "distinct (map fst ts)"
    and b: "\<And>i k. (i, k) \<in> set ts \<Longrightarrow> i \<le> seq \<and> k \<noteq> FlushTick \<and> (k = MutationTick \<longrightarrow> mu = Some i)"
    and m: "\<And>i. mu = Some i \<Longrightarrow> i \<le> seq"
    unfolding table_ok_iff by auto
  from b have "Suc seq \<notin> fst ` set ts"
    by force
  with d b m show ?thesis
    unfolding table_ok_iff by (fastforce simp add: le_Suc_eq)
qed

lemma table_ok_arm_mutation:
  assumes "table_ok ts seq fl None"
  shows "table_ok (ts @ [(Suc seq, MutationTick)]) (Suc seq) fl (Some (Suc seq))"
proof -
  from assms have d: "distinct (map fst ts)"
    and b: "\<And>i k. (i, k) \<in> set ts \<Longrightarrow> i \<le> seq \<and> k \<noteq> MutationTick \<and> (k = FlushTick \<longrightarrow> fl = Some i)"
    and f: "\<And>i. fl = Some i \<Longrightarrow> i \<le> seq"
    unfolding table_ok_iff by auto
  from b have "Suc seq \<notin> fst ` set ts"
    by force
  with d b f show ?thesis
    unfolding table_ok_iff by (fastforce simp add: le_Suc_eq)
qed

lemma table_ok_fired:
  assumes "table_ok ts seq fl mu" and "map_of ts i = Some k"
  shows "k \<notin> snd ` set (filter (\<lambda>(j, k'). j \<noteq> i) ts)"
proof
  assume "k \<in> snd ` set (filter (\<lambda>(j, k'). j \<noteq> i) ts)"
  then obtain j where j: "(j, k) \<in> set ts" "j \<noteq> i"
    by auto
  from assms(2) have i: "(i, k) \<in> set ts"
    by (rule map_of_SomeD)
  from assms(1) have b: "\<And>i'. (i', k) \<in> set ts \<Longrightarrow>
      (case k of FlushTick \<Rightarrow> fl | MutationTick \<Rightarrow> mu) = Some i'"
    unfolding table_ok_iff by (cases k) auto
  from b[OF i] b[OF j(1)] j(2) show False
    by simp
qed

lemma table_ok_at_most_one:
  assumes "table_ok ts seq fl mu"
  shows "length (filter (\<lambda>(i, k'). k' = k) ts) \<le> 1"
proof -
  let ?h = "case k of FlushTick \<Rightarrow> fl | MutationTick \<Rightarrow> mu"
  let ?ids = "map fst (filter (\<lambda>(i, k'). k' = k) ts)"
  have sub: "set ?ids \<subseteq> set_option ?h"
    using assms[unfolded table_ok_iff] by (cases k) auto
  have d: "distinct ?ids"
    using assms by (simp add: table_ok_iff distinct_map_filter)
  have "length ?ids = card (set ?ids)"
    using d by (rule distinct_card[symmetric])
  also have "\<dots> \<le> card (set_option ?h)"
    by (rule card_mono[OF _ sub]) simp
  also have "\<dots> \<le> 1"
    by (cases ?h) simp_all
  finally show ?thesis
    by simp
qed

lemma scheduleFlush_ok: "timers_ok s \<Longrightarrow> timers_ok (scheduleFlush s)"
  by (auto simp add: timers_ok_def scheduleFlush_def setTimeout_def intro: table_ok_arm_flush)

lemma onMutations_ok: "timers_ok s \<Longrightarrow> timers_ok (onMutations ms s)"
  by (auto simp add: timers_ok_def onMutations_def setTimeout_def Let_def
        intro: table_ok_arm_mutation)

lemma clearTimeout_ok: "timers_ok s \<Longrightarrow> timers_ok (clearTimeout handle s)"
  by (simp add: timers_ok_def clearTimeout_def table_ok_filter)


lemma enqueue_ok: "timers_ok s \<Longrightarrow> timers_ok (snd (enqueue h e s))"
  by (rule same_timers_ok[OF enqueue_same_timers])

lemma flush_ok: "timers_ok s \<Longrightarrow> timers_ok (snd (flush h s))"
  by (rule same_timers_ok[OF flush_same_timers])

lemma init_rest_ok:
  assumes "timers_ok s"
  shows "timers_ok (snd (init_rest h s))"
proof -
  define s4 where "s4 =
    (let s1 = (if enableConsoleWrap (config s)
               then s\<lparr> consoleWraps := consoleWraps s + 1 \<rparr> else s);
         s2 = s1\<lparr> windowListeners := windowListeners s1 + 1 \<rparr>;
         s3 = (if has_fetch h then s2\<lparr> fetchWraps := fetchWraps s2 + 1 \<rparr> else s2)
     in (if has_XMLHttpRequest h then s3\<lparr> xhrWraps := xhrWraps s3 + 1 \<rparr> else s3))"
  have "same_timers s s4"
    by (simp add: s4_def same_timers_def Let_def)
  with assms have 4: "timers_ok s4"
    by (simp add: same_timers_ok)
  let ?s5 = "snd (enqueue h (SessionStart (stamp h) (pathname h)) s4)"
  have 5: "timers_ok ?s5"
    using 4 by (rule enqueue_ok)
  have 6: "timers_ok ((scheduleFlush ?s5)\<lparr> unloadListeners := a, visibilityListeners := b,
                                           heartbeats := c \<rparr>)" for a b c
    using scheduleFlush_ok[OF 5] by (simp add: timers_ok_def)
  have "init_rest h s =
     and_then (enqueue h (SessionStart (stamp h) (pathname h)) s4)
       (\<lambda>s5. let s6 = scheduleFlush s5
             in (None, s6\<lparr> unloadListeners := unloadListeners s6 + 1,
                           visibilityListeners := visibilityListeners s6 + 1,
                           heartbeats := heartbeats s6 + 1 \<rparr>))"
    by (simp add: init_rest_def s4_def Let_def)
  then show ?thesis
    using 5 6 by (simp add: and_then_cases Let_def)
qed

lemma init_ok:
  assumes "timers_ok s"
  shows "timers_ok (snd (init h opts s))"
proof (cases "isInitialized s")
  case True
  with assms show ?thesis by (simp add: init_def)
next
  case False
  define s1 where "s1 = s\<lparr> config := assign DEFAULTS opts, sessionId := Some (makeSessionId h),
                          isUnloading := False, isInitialized := True \<rparr>"
  have 1: "timers_ok s1"
    using assms by (simp add: s1_def timers_ok_def)
  have 2: "timers_ok (observeMutations h (s1\<lparr> formListeners := formListeners s1 + 1 \<rparr>))"
    using 1 by (simp add: observeMutations_def timers_ok_def)
  have "init h opts s =
     (case querySelector h (formSelector (config s1)) of
        SelectorInvalid \<Rightarrow> (Some SyntaxError, s1)
      | NoMatch \<Rightarrow> init_rest h s1
      | FormFound \<Rightarrow>
          init_rest h (observeMutations h (s1\<lparr> formListeners := formListeners s1 + 1 \<rparr>)))"
    using False by (simp add: init_def s1_def Let_def split: query_result.splits)
  then show ?thesis
    using 1 init_rest_ok[OF 1] init_rest_ok[OF 2]
    by (simp split: query_result.splits)
qed

lemma stop_timers:
  "timers (snd (stop h s)) = filter (\<lambda>(i, k). Some i \<noteq> flushTimer s) (timers s) \<and>
   timer_seq (snd (stop h s)) = timer_seq s \<and>
   flushTimer (snd (stop h s)) = flushTimer s \<and>
   mutationTimer (snd (stop h s)) = mutationTimer s"
proof -
  define s3 where "s3 = clearTimeout (flushTimer s)
     (s\<lparr> observer := map_option (\<lambda>connected. False) (observer s), isInitialized := False \<rparr>)"
  have b: "stop_body h s =
     and_then (sendFieldMetricsSummary h ''stop'' s3)
       (\<lambda>s4. and_then (enqueue h (SessionEnd (stamp h) ''stop'') s4) (flush h))"
    by (simp add: stop_body_def s3_def Let_def)
  have "same_timers s3 (snd (stop_body h s))"
    unfolding b
    by (intro and_then_same_timers summary_same_timers enqueue_same_timers flush_same_timers)
  moreover have "timers s3 = filter (\<lambda>(i, k). Some i \<noteq> flushTimer s) (timers s)"
    "timer_seq s3 = timer_seq s" "flushTimer s3 = flushTimer s"
    "mutationTimer s3 = mutationTimer s"
    by (simp_all add: s3_def clearTimeout_def)
  ultimately show ?thesis
    by (simp add: stop_def ignoring_def same_timers_def)
qed

lemma stop_ok:
  assumes "timers_ok s"
  shows "timers_ok (snd (stop h s))"
  using assms by (simp add: timers_ok_def stop_timers table_ok_filter)


lemma flush_tick_ok:
  assumes "timers_ok s" and "FlushTick \<notin> snd ` set (timers s)"
  shows "timers_ok (snd (flush_tick h s))"
proof -
  have "timers_ok (s\<lparr> flushTimer := None \<rparr>)"
    using assms by (simp add: timers_ok_def table_ok_none_flush)
  then have 1: "timers_ok (snd (flush h (s\<lparr> flushTimer := None \<rparr>)))"
    by (rule flush_ok)
  then show ?thesis
    by (simp add: flush_tick_def and_then_cases scheduleFlush_ok)
qed

lemma mutation_tick_ok:
  assumes "timers_ok s" and "MutationTick \<notin> snd ` set (timers s)"
  shows "timers_ok (snd (mutation_tick h s))"
proof -
  define s1 where
    "s1 = s\<lparr> mutationBuffer := drop (maxMutationRecordsPerBatch (config s)) (mutationBuffer s) \<rparr>"
  let ?e = "DomMutation (stamp h) (take (maxMutationRecordsPerBatch (config s)) (mutationBuffer s))"
  have a: "same_timers s (snd (enqueue h ?e s1))"
    by (rule same_timers_trans[OF _ enqueue_same_timers]) (simp add: s1_def same_timers_def)
  then have 2: "timers_ok (snd (enqueue h ?e s1))"
    using assms(1) by (rule same_timers_ok)
  have "MutationTick \<notin> snd ` set (timers (snd (enqueue h ?e s1)))"
    using a assms(2) by (simp add: same_timers_def)
  with 2 have 3: "timers_ok ((snd (enqueue h ?e s1))\<lparr> mutationTimer := None \<rparr>)"
    by (simp add: timers_ok_def table_ok_none_mutation)
  have "mutation_tick h s =
     and_then (enqueue h ?e s1) (\<lambda>s2. (None, s2\<lparr> mutationTimer := None \<rparr>))"
    by (simp add: mutation_tick_def s1_def Let_def)
  then show ?thesis
    using 2 3 by (simp add: and_then_cases)
qed

lemma fire_ok:
  assumes "timers_ok s"
  shows "timers_ok (snd (fire h i s))"
proof (cases "map_of (timers s) i")
  case None
  with assms show ?thesis by (simp add: fire_def)
next
  case (Some k)
  define s1 where "s1 = s\<lparr> timers := filter (\<lambda>(j, k'). j \<noteq> i) (timers s) \<rparr>"
  have 1: "timers_ok s1"
    using assms by (simp add: s1_def timers_ok_def table_ok_filter)
  have 2: "k \<notin> snd ` set (timers s1)"
    using table_ok_fired[OF assms[unfolded timers_ok_def] Some] by (simp add: s1_def)
  have "fire h i s = (case k of FlushTick \<Rightarrow> flush_tick h s1 | MutationTick \<Rightarrow> mutation_tick h s1)"
    by (simp add: fire_def Some s1_def Let_def split: timer_kind.splits)
  then show ?thesis
    using 1 2 by (cases k) (simp_all add: flush_tick_ok mutation_tick_ok)
qed

lemma step_ok:
  assumes "timers_ok s"
  shows "timers_ok (snd (step h a s))"
proof (cases a)
  case (Settles i result)
  then show ?thesis
    using assms
    by (simp add: step_def same_timers_ok[OF settle_same_timers] split: option.splits)
qed (simp_all add: step_def assms init_ok stop_ok fire_ok onMutations_ok enqueue_ok
       same_timers_ok[OF onFocus_same_timers] same_timers_ok[OF onBlur_same_timers]
       same_timers_ok[OF onChange_same_timers] same_timers_ok[OF onInvalid_same_timers]
       same_timers_ok[OF onKeyDown_same_timers] same_timers_ok[OF onPaste_same_timers]
       same_timers_ok[OF onHeartbeat_same_timers] same_timers_ok[OF onBeforeUnload_same_timers]
       same_timers_ok[OF onVisibilityChange_same_timers])

lemma loaded_ok: "timers_ok (loaded t0)"
  by (simp add: timers_ok_def table_ok_def loaded_def)

lemma run_ok: "timers_ok s \<Longrightarrow> timers_ok (run acts s)"
proof (induction acts arbitrary: s)
  case Nil
  then show ?case by simp
next
  case (Cons x acts)
  obtain h a where x: "x = (h, a)" by (cases x)
  from Cons.prems have "timers_ok (snd (step h a s))"
    by (rule step_ok)
  then show ?case
    by (simp add: x Cons.IH)
qed

lemma reachable_ok: "timers_ok (run acts (loaded t0))"
  by (rule run_ok[OF loaded_ok])

subsection \<open>Stop and the timers\<close>

lemma pending_after_stop:
  assumes "timers_ok s"
  shows "pending FlushTick (snd (stop h s)) = []"
    and "pending MutationTick (snd (stop h s)) = pending MutationTick s"
proof -
  note ok = assms[unfolded timers_ok_def table_ok_iff]
  have f: "filter (\<lambda>(i, k'). k' = FlushTick)
             (filter (\<lambda>(i, k). Some i \<noteq> flushTimer s) (timers s)) = []"
  proof -
    have "\<forall>x \<in> set (timers s). \<not> ((case x of (i, k) \<Rightarrow> Some i \<noteq> flushTimer s) \<and>
             (case x of (i, k') \<Rightarrow> k' = FlushTick))"
      using ok by fastforce
    then show ?thesis
      by (simp add: filter_empty_conv)
  qed
  have m: "filter (\<lambda>(i, k'). k' = MutationTick)
             (filter (\<lambda>(i, k). Some i \<noteq> flushTimer s) (timers s)) =
           filter (\<lambda>(i, k'). k' = MutationTick) (timers s)"
    unfolding filter_filter
    by (rule filter_cong[OF refl]) (use ok in fastforce)
  show "pending FlushTick (snd (stop h s)) = []"
    by (simp add: pending_def stop_timers f del: filter_filter)
  show "pending MutationTick (snd (stop h s)) = pending MutationTick s"
    by (simp add: pending_def stop_timers m del: filter_filter)
qed

text \<open>
  Claim C6, as the code has it. \<open>stop\<close> takes the timer whose handle \<open>_flushTimer\<close>
  holds out of the pending timers and touches no other timer; it leaves both stored
  handles as they were. So in every state that a run from the loaded script can reach,
  no flush timer is outstanding after \<open>stop\<close>, and the coalescing timers outstanding after
  \<open>stop\<close> are exactly those that were outstanding before.
\<close>

theorem stop_cancels_flush_timer_only:
  "timers (snd (stop h s)) = filter (\<lambda>(i, k). Some i \<noteq> flushTimer s) (timers s) \<and>
   flushTimer (snd (stop h s)) = flushTimer s \<and>
   mutationTimer (snd (stop h s)) = mutationTimer s \<and>
   pending FlushTick (snd (stop h (run acts (loaded t0)))) = [] \<and>
   pending MutationTick (snd (stop h (run acts (loaded t0)))) =
     pending MutationTick (run acts (loaded t0))"
  using stop_timers[of h s] pending_after_stop[OF reachable_ok, of h acts t0]
  by simp

text \<open>
  The claim as it is worded fails on the short session: the coalescing timer armed by
  the attribute change is still pending when \<open>stop\<close> has returned.
\<close>

theorem stop_leaves_coalescing_timer_counterexample:
  "timers (run stopped_early (loaded 0)) = [(2, MutationTick)] \<and>
   mutationTimer (run stopped_early (loaded 0)) = Some 2"
proof -
  define s1 where "s1 = snd (init (browser 5) no_options (loaded 0))"
  define s2 where "s2 =
    onMutations [Attributes ''form#signup > input:nth-child(2)'' (Some ''class'')] s1"
  have 1: "timers s1 = [(1, FlushTick)]" "flushTimer s1 = Some 1" "mutationTimer s1 = None"
    "timer_seq s1 = 1"
    by (simp_all add: s1_def init_def init_rest_def enqueue_def scheduleFlush_def
          setTimeout_def and_then_def observeMutations_def browser_def loaded_def
          DEFAULTS_def assign_def no_options_def or_default_def Let_def)
  have 2: "timers s2 = [(1, FlushTick), (2, MutationTick)]" "flushTimer s2 = Some 1"
    "mutationTimer s2 = Some 2"
    by (simp_all add: s2_def onMutations_def setTimeout_def 1 Let_def)
  have "run stopped_early (loaded 0) = snd (stop (browser 1200) s2)"
    by (simp add: stopped_early_def step_def s1_def s2_def)
  then show ?thesis
    by (simp add: stop_timers 2)
qed

subsection \<open>The coalescing timer\<close>

lemma onMutations_effect:
  "mutationBuffer (onMutations ms s) = mutationBuffer s @ concat (map notices_of ms) \<and>
   timers (onMutations ms s) =
     (if mutationTimer s = None then timers s @ [(Suc (timer_seq s), MutationTick)]
      else timers s) \<and>
   mutationTimer (onMutations ms s) =
     (if mutationTimer s = None then Some (Suc (timer_seq s)) else mutationTimer s)"
  by (simp add: onMutations_def setTimeout_def Let_def)

lemma mutation_tick_effect:
  "mutationBuffer (snd (mutation_tick h s)) =
     drop (maxMutationRecordsPerBatch (config s)) (mutationBuffer s) \<and>
   passed (snd (mutation_tick h s)) =
     passed s @
       [DomMutation (stamp h) (take (maxMutationRecordsPerBatch (config s)) (mutationBuffer s))] \<and>
   timers (snd (mutation_tick h s)) = timers s \<and>
   timer_seq (snd (mutation_tick h s)) = timer_seq s \<and>
   mutationTimer (snd (mutation_tick h s)) =
     (if fst (mutation_tick h s) = None then None else mutationTimer s) \<and>
   (has_fetch h \<longrightarrow> fst (mutation_tick h s) = None)"
proof -
  define s1 where
    "s1 = s\<lparr> mutationBuffer := drop (maxMutationRecordsPerBatch (config s)) (mutationBuffer s) \<rparr>"
  let ?e = "DomMutation (stamp h) (take (maxMutationRecordsPerBatch (config s)) (mutationBuffer s))"
  have t: "mutation_tick h s =
     and_then (enqueue h ?e s1) (\<lambda>s2. (None, s2\<lparr> mutationTimer := None \<rparr>))"
    by (simp add: mutation_tick_def s1_def Let_def)
  have p: "passed (snd (enqueue h ?e s1)) = passed s @ [?e]"
    by (simp add: enqueue_passed) (simp add: passed_def s1_def)
  have f: "mutationBuffer (snd (enqueue h ?e s1)) = mutationBuffer s1"
    "timers (snd (enqueue h ?e s1)) = timers s1"
    "timer_seq (snd (enqueue h ?e s1)) = timer_seq s1"
    "mutationTimer (snd (enqueue h ?e s1)) = mutationTimer s1"
    by (simp_all add: enqueue_timers)
  have s1: "mutationBuffer s1 = drop (maxMutationRecordsPerBatch (config s)) (mutationBuffer s)"
    "timers s1 = timers s" "timer_seq s1 = timer_seq s" "mutationTimer s1 = mutationTimer s"
    by (simp_all add: s1_def)
  have pm: "passed (s2\<lparr> mutationTimer := None \<rparr>) = passed s2" for s2
    by (simp add: passed_def)
  show ?thesis
    unfolding t and_then_cases
    using enqueue_with_fetch[of h ?e s1]
    by (auto simp add: p f s1 pm)
qed

text \<open>When the enqueue in the timer's callback throws, the handle stays stored.\<close>

lemma handle_kept_when_enqueue_throws:
  "fst (mutation_tick h s) \<noteq> None \<Longrightarrow>
   mutationTimer (snd (mutation_tick h s)) = mutationTimer s"
  using mutation_tick_effect[of h s] by auto

lemma fire_mutation:
  "map_of (timers s) i = Some MutationTick \<Longrightarrow>
   fire h i s = mutation_tick h (s\<lparr> timers := filter (\<lambda>(j, k'). j \<noteq> i) (timers s) \<rparr>)"
  by (simp add: fire_def Let_def)

lemma not_pending_after_filter: "i \<notin> fst ` set (filter (\<lambda>(j, k'). j \<noteq> i) ts)"
  by auto


text \<open>
  Claim C7, as the code has it. In every state that a run from the loaded script can
  reach, at most one coalescing timer is pending. A callback of the observer appends
  the notices of its records to the buffer and arms the timer exactly when no handle is
  stored, whether or not it buffered a notice; with a handle stored it arms nothing.
  When the pending coalescing timer fires, the first \<open>maxMutationRecordsPerBatch\<close>
  notices (8 by default; at most that many, possibly none) leave the front of the buffer
  and enter the queue as one \<open>dom-mutation\<close> record, the timer is no longer pending, and,
  when the enqueue returns normally (as it does on a host with \<open>fetch\<close>), the handle
  is cleared, so that the next callback arms a timer again.
\<close>

theorem coalescing_timer_policy:
  "maxMutationRecordsPerBatch DEFAULTS = 8 \<and>
   length (pending MutationTick (run acts (loaded t0))) \<le> 1 \<and>
   mutationBuffer (onMutations ms s) = mutationBuffer s @ concat (map notices_of ms) \<and>
   timers (onMutations ms s) =
     (if mutationTimer s = None then timers s @ [(Suc (timer_seq s), MutationTick)]
      else timers s) \<and>
   mutationTimer (onMutations ms s) =
     (if mutationTimer s = None then Some (Suc (timer_seq s)) else mutationTimer s) \<and>
   (map_of (timers s) i = Some MutationTick \<longrightarrow>
      mutationBuffer (snd (fire h i s)) =
        drop (maxMutationRecordsPerBatch (config s)) (mutationBuffer s) \<and>
      passed (snd (fire h i s)) =
        passed s @
          [DomMutation (stamp h)
             (take (maxMutationRecordsPerBatch (config s)) (mutationBuffer s))] \<and>
      length (take (maxMutationRecordsPerBatch (config s)) (mutationBuffer s)) \<le>
        maxMutationRecordsPerBatch (config s) \<and>
      i \<notin> fst ` set (timers (snd (fire h i s))) \<and>
      (has_fetch h \<longrightarrow> fst (fire h i s) = None) \<and>
      (fst (fire h i s) = None \<longrightarrow>
         mutationTimer (snd (fire h i s)) = None \<and>
         mutationTimer (onMutations ms' (snd (fire h i s))) =
           Some (Suc (timer_seq s))))"
proof -
  have d: "maxMutationRecordsPerBatch DEFAULTS = 8"
    by (simp add: DEFAULTS_def)
  have one: "length (pending MutationTick (run acts (loaded t0))) \<le> 1"
    using table_ok_at_most_one[OF reachable_ok[unfolded timers_ok_def], of MutationTick acts t0]
    by (simp add: pending_def)
  have fired: "mutationBuffer (snd (fire h i s)) =
        drop (maxMutationRecordsPerBatch (config s)) (mutationBuffer s) \<and>
      passed (snd (fire h i s)) =
        passed s @
          [DomMutation (stamp h)
             (take (maxMutationRecordsPerBatch (config s)) (mutationBuffer s))] \<and>
      i \<notin> fst ` set (timers (snd (fire h i s))) \<and>
      (has_fetch h \<longrightarrow> fst (fire h i s) = None) \<and>
      (fst (fire h i s) = None \<longrightarrow>
         mutationTimer (snd (fire h i s)) = None \<and>
         mutationTimer (onMutations ms' (snd (fire h i s))) =
           Some (Suc (timer_seq s)))"
    if m: "map_of (timers s) i = Some MutationTick"
  proof -
    let ?s1 = "s\<lparr> timers := filter (\<lambda>(j, k'). j \<noteq> i) (timers s) \<rparr>"
    have p: "passed ?s1 = passed s"
      by (simp add: passed_def)
    show ?thesis
      using mutation_tick_effect[of h ?s1] not_pending_after_filter[of i "timers s"]
      by (simp add: fire_mutation[OF m] p onMutations_effect)
  qed
  from d one fired onMutations_effect[of ms s] show ?thesis
    by simp
qed


theorem coalescing_timer_policy_witness:
  "map_of (timers backlog) 1 = Some MutationTick \<and> has_fetch (browser 3800) \<and>
   mutationBuffer (snd (fire (browser 3800) 1 backlog)) =
     [Removed ''form#signup > p'' (Some ''p'')] \<and>
   passed (snd (fire (browser 3800) 1 backlog)) =
     [DomMutation 3800 [Attr ''form#signup'' (Some ''class''),
                        Added ''form#signup > p'' (Some ''p'')]] \<and>
   1 \<notin> fst ` set (timers (snd (fire (browser 3800) 1 backlog))) \<and>
   fst (fire (browser 3800) 1 backlog) = None \<and>
   mutationTimer (snd (fire (browser 3800) 1 backlog)) = None \<and>
   mutationTimer
     (onMutations [Attributes ''form#signup'' (Some ''class'')]
        (snd (fire (browser 3800) 1 backlog))) = Some 2"
proof -
  have m: "map_of (timers backlog) 1 = Some MutationTick"
    by (simp add: backlog_def)
  have f: "has_fetch (browser 3800)"
    by (simp add: browser_def)
  have q: "timer_seq backlog = 1"
    by (simp add: backlog_def)
  have p: "passed backlog = []" "mutationBuffer backlog =
      [Attr ''form#signup'' (Some ''class''), Added ''form#signup > p'' (Some ''p''),
       Removed ''form#signup > p'' (Some ''p'')]"
    "maxMutationRecordsPerBatch (config backlog) = 2"
    by (simp_all add: backlog_def passed_def loaded_def)
  have t: "stamp (browser 3800) = 3800"
    by (simp add: stamp_def perfNow_def browser_def)
  show ?thesis
    using coalescing_timer_policy[of "[]" 0 "[]" backlog 1 "browser 3800"
        "[Attributes ''form#signup'' (Some ''class'')]"] m f
    by (simp add: q p t)
qed

text \<open>
  The claim as it is worded has the timer armed by a buffered notice only. A callback
  whose one record replaces a text node by another buffers nothing and arms the timer.
\<close>

theorem timer_armed_without_notice_counterexample:
  "mutationBuffer (onMutations [ChildList [text_node] [text_node]] (loaded 0)) = [] \<and>
   timers (onMutations [ChildList [text_node] [text_node]] (loaded 0)) = [(1, MutationTick)]"
  by (simp add: onMutations_effect notices_of_def text_node_def loaded_def)

subsection \<open>Init after stop\<close>

lemma and_then_queue_only:
  assumes "queue_only s (snd r)" and "\<And>s1. queue_only s1 (snd (f s1))"
  shows "queue_only s (snd (and_then r f))"
  using assms queue_only_trans by (auto simp add: and_then_cases)

lemma stop_as_queue_only:
  "queue_only
     (clearTimeout (flushTimer s)
        (s\<lparr> observer := map_option (\<lambda>connected. False) (observer s),
             isInitialized := False \<rparr>))
     (snd (stop h s))"
proof -
  define s3 where "s3 = clearTimeout (flushTimer s)
     (s\<lparr> observer := map_option (\<lambda>connected. False) (observer s), isInitialized := False \<rparr>)"
  have b: "stop_body h s =
     and_then (sendFieldMetricsSummary h ''stop'' s3)
       (\<lambda>s4. and_then (enqueue h (SessionEnd (stamp h) ''stop'') s4) (flush h))"
    by (simp add: stop_body_def s3_def Let_def)
  have "queue_only s3 (snd (stop_body h s))"
    unfolding b sendFieldMetricsSummary_def
    by (intro and_then_queue_only enqueue_queue_only flush_queue_only)
  then show ?thesis
    by (simp add: stop_def ignoring_def s3_def)
qed

lemma stop_effect:
  "\<not> isInitialized (snd (stop h s)) \<and>
   heartbeats (snd (stop h s)) = heartbeats s \<and>
   formListeners (snd (stop h s)) = formListeners s \<and>
   windowListeners (snd (stop h s)) = windowListeners s \<and>
   unloadListeners (snd (stop h s)) = unloadListeners s \<and>
   visibilityListeners (snd (stop h s)) = visibilityListeners s \<and>
   fetchWraps (snd (stop h s)) = fetchWraps s \<and>
   observer (snd (stop h s)) = map_option (\<lambda>connected. False) (observer s)"
  by (simp add: queue_only_lifecycle[OF stop_as_queue_only]
        queue_only_registrations[OF stop_as_queue_only] clearTimeout_def)

lemma scheduleFlush_effect:
  "timers (scheduleFlush s) =
     timers s @ (if flushTimer s = None then [(Suc (timer_seq s), FlushTick)] else []) \<and>
   flushTimer (scheduleFlush s) =
     (if flushTimer s = None then Some (Suc (timer_seq s)) else flushTimer s) \<and>
   heartbeats (scheduleFlush s) = heartbeats s \<and>
   formListeners (scheduleFlush s) = formListeners s \<and>
   windowListeners (scheduleFlush s) = windowListeners s \<and>
   unloadListeners (scheduleFlush s) = unloadListeners s \<and>
   visibilityListeners (scheduleFlush s) = visibilityListeners s \<and>
   fetchWraps (scheduleFlush s) = fetchWraps s \<and>
   isInitialized (scheduleFlush s) = isInitialized s \<and>
   sessionId (scheduleFlush s) = sessionId s \<and>
   config (scheduleFlush s) = config s"
  by (simp add: scheduleFlush_def setTimeout_def Let_def)

lemma init_rest_effect:
  assumes "fst (init_rest h s) = None"
  shows "timers (snd (init_rest h s)) =
           timers s @ (if flushTimer s = None then [(Suc (timer_seq s), FlushTick)] else []) \<and>
         flushTimer (snd (init_rest h s)) =
           (if flushTimer s = None then Some (Suc (timer_seq s)) else flushTimer s) \<and>
         heartbeats (snd (init_rest h s)) = heartbeats s + 1 \<and>
         formListeners (snd (init_rest h s)) = formListeners s \<and>
         windowListeners (snd (init_rest h s)) = windowListeners s + 1 \<and>
         unloadListeners (snd (init_rest h s)) = unloadListeners s + 1 \<and>
         visibilityListeners (snd (init_rest h s)) = visibilityListeners s + 1 \<and>
         fetchWraps (snd (init_rest h s)) = fetchWraps s + (if has_fetch h then 1 else 0) \<and>
         isInitialized (snd (init_rest h s)) = isInitialized s \<and>
         sessionId (snd (init_rest h s)) = sessionId s \<and>
         config (snd (init_rest h s)) = config s"
proof -
  define s4 where "s4 =
    (let s1 = (if enableConsoleWrap (config s)
               then s\<lparr> consoleWraps := consoleWraps s + 1 \<rparr> else s);
         s2 = s1\<lparr> windowListeners := windowListeners s1 + 1 \<rparr>;
         s3 = (if has_fetch h then s2\<lparr> fetchWraps := fetchWraps s2 + 1 \<rparr> else s2)
     in (if has_XMLHttpRequest h then s3\<lparr> xhrWraps := xhrWraps s3 + 1 \<rparr> else s3))"
  let ?r = "enqueue h (SessionStart (stamp h) (pathname h)) s4"
  have r: "init_rest h s =
     and_then ?r
       (\<lambda>s5. let s6 = scheduleFlush s5
             in (None, s6\<lparr> unloadListeners := unloadListeners s6 + 1,
                           visibilityListeners := visibilityListeners s6 + 1,
                           heartbeats := heartbeats s6 + 1 \<rparr>))"
    by (simp add: init_rest_def s4_def Let_def)
  from assms have ok: "fst ?r = None"
    by (simp add: r and_then_cases split: if_splits)
  have 4: "timers s4 = timers s" "timer_seq s4 = timer_seq s" "flushTimer s4 = flushTimer s"
    "heartbeats s4 = heartbeats s" "formListeners s4 = formListeners s"
    "windowListeners s4 = windowListeners s + 1" "unloadListeners s4 = unloadListeners s"
    "visibilityListeners s4 = visibilityListeners s"
    "fetchWraps s4 = fetchWraps s + (if has_fetch h then 1 else 0)"
    "isInitialized s4 = isInitialized s" "sessionId s4 = sessionId s" "config s4 = config s"
    by (simp_all add: s4_def Let_def)
  show ?thesis
    by (simp add: r and_then_cases ok Let_def scheduleFlush_effect enqueue_timers
          enqueue_registrations enqueue_lifecycle 4)
qed


lemma init_effect:
  assumes "\<not> isInitialized s" and "fst (init h opts s) = None"
  shows "isInitialized (snd (init h opts s)) \<and>
         sessionId (snd (init h opts s)) = Some (makeSessionId h) \<and>
         config (snd (init h opts s)) = assign DEFAULTS opts \<and>
         heartbeats (snd (init h opts s)) = heartbeats s + 1 \<and>
         windowListeners (snd (init h opts s)) = windowListeners s + 1 \<and>
         unloadListeners (snd (init h opts s)) = unloadListeners s + 1 \<and>
         visibilityListeners (snd (init h opts s)) = visibilityListeners s + 1 \<and>
         formListeners (snd (init h opts s)) =
           formListeners s +
             (if querySelector h (formSelector (assign DEFAULTS opts)) = FormFound then 1 else 0) \<and>
         fetchWraps (snd (init h opts s)) = fetchWraps s + (if has_fetch h then 1 else 0) \<and>
         flushTimer (snd (init h opts s)) =
           (if flushTimer s = None then Some (Suc (timer_seq s)) else flushTimer s) \<and>
         timers (snd (init h opts s)) =
           timers s @ (if flushTimer s = None then [(Suc (timer_seq s), FlushTick)] else [])"
proof -
  define s1 where "s1 = s\<lparr> config := assign DEFAULTS opts, sessionId := Some (makeSessionId h),
                          isUnloading := False, isInitialized := True \<rparr>"
  define s2 where "s2 = observeMutations h (s1\<lparr> formListeners := formListeners s1 + 1 \<rparr>)"
  have i: "init h opts s =
     (case querySelector h (formSelector (assign DEFAULTS opts)) of
        SelectorInvalid \<Rightarrow> (Some SyntaxError, s1)
      | NoMatch \<Rightarrow> init_rest h s1
      | FormFound \<Rightarrow> init_rest h s2)"
    using assms(1) by (simp add: init_def s1_def s2_def Let_def split: query_result.splits)
  have 1: "timers s1 = timers s" "timer_seq s1 = timer_seq s" "flushTimer s1 = flushTimer s"
    "heartbeats s1 = heartbeats s" "formListeners s1 = formListeners s"
    "windowListeners s1 = windowListeners s" "unloadListeners s1 = unloadListeners s"
    "visibilityListeners s1 = visibilityListeners s" "fetchWraps s1 = fetchWraps s"
    "isInitialized s1" "sessionId s1 = Some (makeSessionId h)" "config s1 = assign DEFAULTS opts"
    by (simp_all add: s1_def)
  have 2: "timers s2 = timers s" "timer_seq s2 = timer_seq s" "flushTimer s2 = flushTimer s"
    "heartbeats s2 = heartbeats s" "formListeners s2 = formListeners s + 1"
    "windowListeners s2 = windowListeners s" "unloadListeners s2 = unloadListeners s"
    "visibilityListeners s2 = visibilityListeners s" "fetchWraps s2 = fetchWraps s"
    "isInitialized s2" "sessionId s2 = Some (makeSessionId h)" "config s2 = assign DEFAULTS opts"
    by (simp_all add: s2_def s1_def observeMutations_def)
  show ?thesis
  proof (cases "querySelector h (formSelector (assign DEFAULTS opts))")
    case SelectorInvalid
    with assms(2) show ?thesis by (simp add: i)
  next
    case NoMatch
    with assms(2) have "fst (init_rest h s1) = None" by (simp add: i)
    from init_rest_effect[OF this] show ?thesis
      by (simp add: i NoMatch 1)
  next
    case FormFound
    with assms(2) have "fst (init_rest h s2) = None" by (simp add: i)
    from init_rest_effect[OF this] show ?thesis
      by (simp add: i FormFound 2)
  qed
qed


text \<open>
  \<open>init\<close> after \<open>stop\<close>, in general. \<open>stop\<close> clears the initialized flag, so an \<open>init\<close>
  after it runs in full. When that \<open>init\<close> returns normally, the SDK is initialized
  again with the identifier that the host has just drawn and the configuration built
  anew from the defaults, the window, unload and visibility listeners, the heartbeat
  interval and the \<open>fetch\<close> wrapper are registered once more, and so are the form
  listeners when the selector finds the form. \<open>stop\<close> cancels the flush timer and leaves
  its handle in \<open>_flushTimer\<close>, and \<open>scheduleFlush\<close> arms a timer only when that field
  holds no handle: the pending timers after the second \<open>init\<close> are those that \<open>stop\<close>
  left, and in a state reached by a run in which a handle is stored, none of them is a
  flush timer.
\<close>

lemma init_after_stop_starts_again:
  "\<not> isInitialized (snd (stop h s)) \<and>
   (fst (init h' opts (snd (stop h s))) = None \<longrightarrow>
      isInitialized (snd (init h' opts (snd (stop h s)))) \<and>
      sessionId (snd (init h' opts (snd (stop h s)))) = Some (makeSessionId h') \<and>
      config (snd (init h' opts (snd (stop h s)))) = assign DEFAULTS opts \<and>
      heartbeats (snd (init h' opts (snd (stop h s)))) = heartbeats s + 1 \<and>
      windowListeners (snd (init h' opts (snd (stop h s)))) = windowListeners s + 1 \<and>
      unloadListeners (snd (init h' opts (snd (stop h s)))) = unloadListeners s + 1 \<and>
      visibilityListeners (snd (init h' opts (snd (stop h s)))) = visibilityListeners s + 1 \<and>
      formListeners (snd (init h' opts (snd (stop h s)))) =
        formListeners s +
          (if querySelector h' (formSelector (assign DEFAULTS opts)) = FormFound then 1 else 0) \<and>
      fetchWraps (snd (init h' opts (snd (stop h s)))) =
        fetchWraps s + (if has_fetch h' then 1 else 0) \<and>
      flushTimer (snd (init h' opts (snd (stop h s)))) =
        (if flushTimer s = None then Some (Suc (timer_seq s)) else flushTimer s) \<and>
      timers (snd (init h' opts (snd (stop h s)))) =
        filter (\<lambda>(i, k). Some i \<noteq> flushTimer s) (timers s) @
          (if flushTimer s = None then [(Suc (timer_seq s), FlushTick)] else [])) \<and>
   (fst (init h' opts (snd (stop h (run acts (loaded t0))))) = None \<and>
    flushTimer (run acts (loaded t0)) \<noteq> None \<longrightarrow>
      pending FlushTick (snd (init h' opts (snd (stop h (run acts (loaded t0)))))) = [])"
proof -
  have off: "\<not> isInitialized (snd (stop h s))" for s
    using stop_effect[of h s] by simp
  have again: "isInitialized (snd (init h' opts (snd (stop h s)))) \<and>
      sessionId (snd (init h' opts (snd (stop h s)))) = Some (makeSessionId h') \<and>
      config (snd (init h' opts (snd (stop h s)))) = assign DEFAULTS opts \<and>
      heartbeats (snd (init h' opts (snd (stop h s)))) = heartbeats s + 1 \<and>
      windowListeners (snd (init h' opts (snd (stop h s)))) = windowListeners s + 1 \<and>
      unloadListeners (snd (init h' opts (snd (stop h s)))) = unloadListeners s + 1 \<and>
      visibilityListeners (snd (init h' opts (snd (stop h s)))) = visibilityListeners s + 1 \<and>
      formListeners (snd (init h' opts (snd (stop h s)))) =
        formListeners s +
          (if querySelector h' (formSelector (assign DEFAULTS opts)) = FormFound then 1 else 0) \<and>
      fetchWraps (snd (init h' opts (snd (stop h s)))) =
        fetchWraps s + (if has_fetch h' then 1 else 0) \<and>
      flushTimer (snd (init h' opts (snd (stop h s)))) =
        (if flushTimer s = None then Some (Suc (timer_seq s)) else flushTimer s) \<and>
      timers (snd (init h' opts (snd (stop h s)))) =
        filter (\<lambda>(i, k). Some i \<noteq> flushTimer s) (timers s) @
          (if flushTimer s = None then [(Suc (timer_seq s), FlushTick)] else [])"
    if "fst (init h' opts (snd (stop h s))) = None" for s
    using init_effect[OF off that] stop_effect[of h s] stop_timers[of h s]
    by simp
  have none: "pending FlushTick (snd (init h' opts (snd (stop h (run acts (loaded t0)))))) = []"
    if r: "fst (init h' opts (snd (stop h (run acts (loaded t0))))) = None"
      and f: "flushTimer (run acts (loaded t0)) \<noteq> None"
  proof -
    from again[OF r] f
    have "timers (snd (init h' opts (snd (stop h (run acts (loaded t0)))))) =
          timers (snd (stop h (run acts (loaded t0))))"
      by (simp add: stop_timers)
    then show ?thesis
      using pending_after_stop(1)[OF reachable_ok, of h acts t0]
      by (simp add: pending_def)
  qed
  from off again none show ?thesis
    by blast
qed


lemma first_init:
  "fst (init (browser 5) no_options (loaded 0)) = None \<and>
   flushTimer (snd (init (browser 5) no_options (loaded 0))) = Some 1 \<and>
   timers (snd (init (browser 5) no_options (loaded 0))) = [(1, FlushTick)] \<and>
   heartbeats (snd (init (browser 5) no_options (loaded 0))) = 1 \<and>
   formListeners (snd (init (browser 5) no_options (loaded 0))) = 1"
proof -
  have q: "querySelector (browser t) (formSelector (assign DEFAULTS no_options)) = FormFound" for t
    by (simp add: browser_def assign_def DEFAULTS_def no_options_def or_default_def)
  have r: "fst (init (browser 5) no_options (loaded 0)) = None"
    by (rule init_returns_normally)
       (simp_all add: browser_def no_options_def or_default_def)
  have l: "\<not> isInitialized (loaded 0)" "flushTimer (loaded 0) = None" "timer_seq (loaded 0) = 0"
    "timers (loaded 0) = []" "heartbeats (loaded 0) = 0" "formListeners (loaded 0) = 0"
    by (simp_all add: loaded_def)
  from init_effect[OF l(1) r] r show ?thesis
    by (simp add: l q)
qed

text \<open>
  Claim C10, at a failing input: \<open>FXT.init()\<close>, \<open>FXT.stop()\<close>, \<open>FXT.init()\<close> with the
  defaults on a page that has the form. The first \<open>init\<close> arms the flush timer, with
  handle 1. The second \<open>init\<close> is no no-op: the SDK is initialized again, it has a
  session identifier, and a second heartbeat interval and a second set of form
  listeners are registered. The flush timer is not registered again: no flush callback
  is pending after the second \<open>init\<close>. \<open>stop\<close> calls \<open>clearTimeout(FXT._flushTimer)\<close> and
  leaves the cancelled handle in the field (the timer's own callback sets the field to
  \<open>null\<close> before it arms the next one), and \<open>scheduleFlush\<close> returns at once when the
  field holds a handle.
\<close>

theorem restart_has_no_flush_timer:
  "pending FlushTick (run [(browser 5, Init no_options)] (loaded 0)) = [1] \<and>
   isInitialized (run restarted (loaded 0)) \<and>
   sessionId (run restarted (loaded 0)) = Some ''4f0c7a52-9d1e-4b6a-8c33-5e2f7a9b1d04'' \<and>
   heartbeats (run restarted (loaded 0)) = 2 \<and>
   formListeners (run restarted (loaded 0)) = 2 \<and>
   pending FlushTick (run restarted (loaded 0)) = [] \<and>
   flushTimer (run restarted (loaded 0)) = Some 1"
proof -
  let ?s = "snd (init (browser 5) no_options (loaded 0))"
  have e: "run restarted (loaded 0) =
           snd (init (browser 2000) no_options (snd (stop (browser 1200) ?s)))"
    by (simp add: restarted_def step_def)
  have e1: "run [(browser 5, Init no_options)] (loaded 0) = ?s"
    by (simp add: step_def)
  have q: "querySelector (browser t) (formSelector (assign DEFAULTS no_options)) = FormFound"
    "makeSessionId (browser t) = ''4f0c7a52-9d1e-4b6a-8c33-5e2f7a9b1d04''" for t
    by (simp_all add: browser_def assign_def DEFAULTS_def no_options_def or_default_def)
  have r: "fst (init (browser 2000) no_options (snd (stop (browser 1200) ?s))) = None"
    by (rule init_returns_normally)
       (simp_all add: browser_def no_options_def or_default_def)
  have off: "\<not> isInitialized (snd (stop (browser 1200) ?s))"
    using stop_effect[of "browser 1200" ?s] by simp
  from init_effect[OF off r] stop_effect[of "browser 1200" ?s]
    stop_timers[of "browser 1200" ?s] first_init
  show ?thesis
    unfolding e e1 by (simp add: pending_def q)
qed

end
